theory Spec2Isabelle
  imports Complex_Main "HOL-Library.Sublist"
begin

section \<open>Hybrid search engine and similarity benchmarker\<close>

text \<open>
  A shallow embedding of \<^verbatim>\<open>hybrid-search-engine.py\<close> (class \<^verbatim>\<open>HybridSearchEngine\<close>)
  and of \<^verbatim>\<open>similarity_benchmarker.py\<close> (class \<^verbatim>\<open>SimilarityBenchmarker\<close>).

  Conventions of the model:
  \<^item> Python floats are real numbers: arithmetic is exact, NaN and the infinities are not
    values. Where numpy would produce NaN (the mean of no values) the model returns
    \<open>None\<close>.
  \<^item> Python ints are \<open>int\<close>.
  \<^item> A Python \<^verbatim>\<open>dict\<close> is an association list in insertion order with one pair per
    key: assigning to a key that is present replaces its value in place, assigning to a
    new key appends the pair. That is the order \<^verbatim>\<open>dict.items()\<close> iterates in.
  \<^item> Every exception the code can raise is a value of \<open>py_error\<close>, returned as \<open>Inl\<close>.
  \<^item> Objects of third-party libraries (the sentence encoder, the FAISS indexes, the BM25
    ranker, numpy percentiles) are parameters of the model: functions stored in the
    engine or in an environment record.
\<close>

subsection \<open>Exceptions and Python helpers\<close>

datatype py_error =
    AttributeError
  | ValueError
  | IndexError
  | ZeroDivisionError
  | LibraryError string

type_synonym candidate = "int \<times> real"

type_synonym score_dict = "(int \<times> real) list"

text \<open>\<^verbatim>\<open>d[k] = v\<close> on an insertion-ordered dictionary.\<close>

fun dict_set :: "'k \<Rightarrow> 'v \<Rightarrow> ('k \<times> 'v) list \<Rightarrow> ('k \<times> 'v) list" where
  "dict_set k v [] = [(k, v)]"
| "dict_set k v ((k', v') # d) = (if k' = k then (k, v) # d else (k', v') # dict_set k v d)"

text \<open>\<^verbatim>\<open>d.get(k)\<close>: \<open>None\<close> when the key is absent.\<close>

fun dict_get :: "('k \<times> 'v) list \<Rightarrow> 'k \<Rightarrow> 'v option" where
  "dict_get [] k = None"
| "dict_get ((k', v') # d) k = (if k' = k then Some v' else dict_get d k)"

text \<open>\<^verbatim>\<open>dict(pairs)\<close>: later pairs overwrite earlier ones, keys keep their first position.\<close>

definition py_dict :: "('k \<times> 'v) list \<Rightarrow> ('k \<times> 'v) list" where
  "py_dict ps = foldl (\<lambda>d (k, v). dict_set k v d) [] ps"

text \<open>\<^verbatim>\<open>max(xs)\<close> on a non-empty list; the callers guard the empty case themselves.\<close>

fun py_max :: "real list \<Rightarrow> real" where
  "py_max [] = 0"
| "py_max (x # xs) = fold max xs x"

text \<open>
  \<^verbatim>\<open>sorted(d.items(), key=lambda x: x[1], reverse=True)\<close>. Python's sort is stable, also
  with \<^verbatim>\<open>reverse=True\<close>: pairs with equal score keep the order they had in the dictionary.
  A stable ascending sort on the negated score is the same list.
\<close>

definition sorted_desc :: "('k \<times> real) list \<Rightarrow> ('k \<times> real) list" where
  "sorted_desc d = sort_key (\<lambda>p. - snd p) d"

text \<open>\<^verbatim>\<open>xs[:k]\<close> for any integer \<open>k\<close>: a negative \<open>k\<close> drops \<open>-k\<close> elements from the end.\<close>

definition py_take :: "int \<Rightarrow> 'a list \<Rightarrow> 'a list" where
  "py_take k xs = (if 0 \<le> k then take (nat k) xs else take (length xs - nat (- k)) xs)"

text \<open>\<^verbatim>\<open>xs[i]\<close>: a negative index counts from the end, out of range raises \<^verbatim>\<open>IndexError\<close>.\<close>

definition py_index :: "'a list \<Rightarrow> int \<Rightarrow> py_error + 'a" where
  "py_index xs i =
     (if 0 \<le> i \<and> i < int (length xs) then Inr (xs ! nat i)
      else if i < 0 \<and> - int (length xs) \<le> i then Inr (xs ! nat (int (length xs) + i))
      else Inl IndexError)"

subsection \<open>Score fusion\<close>

text \<open>
  \<^verbatim>\<open>_fuse_weighted\<close>. The first loop assigns \<^verbatim>\<open>scores[idx] = semantic_weight * score\<close>,
  the second adds the weighted normalised keyword score to an existing entry or creates
  the entry.
\<close>

definition weighted_semantic_loop :: "real \<Rightarrow> candidate list \<Rightarrow> score_dict \<Rightarrow> score_dict" where
  "weighted_semantic_loop sw semantic_results scores =
     foldl (\<lambda>d (idx, score). dict_set idx (sw * score) d) scores semantic_results"

definition weighted_keyword_loop ::
  "real \<Rightarrow> real \<Rightarrow> candidate list \<Rightarrow> score_dict \<Rightarrow> score_dict" where
  "weighted_keyword_loop kw max_keyword keyword_results scores =
     foldl (\<lambda>d (idx, score).
              let normalized = (if max_keyword > 0 then score / max_keyword else 0)
              in (case dict_get d idx of
                    Some old \<Rightarrow> dict_set idx (old + kw * normalized) d
                  | None \<Rightarrow> dict_set idx (kw * normalized) d))
           scores keyword_results"

definition fuse_weighted ::
  "real \<Rightarrow> real \<Rightarrow> candidate list \<Rightarrow> candidate list \<Rightarrow> candidate list" where
  "fuse_weighted semantic_weight keyword_weight semantic_results keyword_results =
     (let scores = weighted_semantic_loop semantic_weight semantic_results [];
          keyword_scores = map snd keyword_results;
          max_keyword = (if keyword_scores \<noteq> [] then py_max keyword_scores else 1);
          scores = weighted_keyword_loop keyword_weight max_keyword keyword_results scores
      in sorted_desc scores)"

text \<open>
  \<^verbatim>\<open>_fuse_rrf\<close>. \<^verbatim>\<open>enumerate(results, 1)\<close> numbers the entries from 1; \<^verbatim>\<open>1 / (k + rank)\<close>
  raises \<^verbatim>\<open>ZeroDivisionError\<close> when \<open>k + rank = 0\<close>, which a negative \<open>k\<close> can reach.
\<close>

fun rrf_semantic_loop ::
  "int \<Rightarrow> int \<Rightarrow> candidate list \<Rightarrow> score_dict \<Rightarrow> py_error + score_dict" where
  "rrf_semantic_loop k rank [] scores = Inr scores"
| "rrf_semantic_loop k rank ((idx, _) # rest) scores =
     (if k + rank = 0 then Inl ZeroDivisionError
      else rrf_semantic_loop k (rank + 1) rest (dict_set idx (1 / real_of_int (k + rank)) scores))"

fun rrf_keyword_loop ::
  "int \<Rightarrow> int \<Rightarrow> candidate list \<Rightarrow> score_dict \<Rightarrow> py_error + score_dict" where
  "rrf_keyword_loop k rank [] scores = Inr scores"
| "rrf_keyword_loop k rank ((idx, _) # rest) scores =
     (if k + rank = 0 then Inl ZeroDivisionError
      else rrf_keyword_loop k (rank + 1) rest
             (case dict_get scores idx of
                Some old \<Rightarrow> dict_set idx (old + 1 / real_of_int (k + rank)) scores
              | None \<Rightarrow> dict_set idx (1 / real_of_int (k + rank)) scores))"

definition fuse_rrf :: "int \<Rightarrow> candidate list \<Rightarrow> candidate list \<Rightarrow> py_error + candidate list" where
  "fuse_rrf k semantic_results keyword_results =
     (case rrf_semantic_loop k 1 semantic_results [] of
        Inl e \<Rightarrow> Inl e
      | Inr scores \<Rightarrow>
          (case rrf_keyword_loop k 1 keyword_results scores of
             Inl e \<Rightarrow> Inl e
           | Inr scores \<Rightarrow> Inr (sorted_desc scores)))"

text \<open>
  \<^verbatim>\<open>_fuse_combmnz\<close>. \<^verbatim>\<open>all_indices\<close> is a Python \<^verbatim>\<open>set\<close>; the order in which the loop
  visits it is the interpreter's and is not fixed by the language, so it is the parameter
  \<open>set_iter\<close>: a function that receives the elements of the set, once each, and
  returns them in iteration order. The dictionaries
  \<^verbatim>\<open>scores\<close> and \<^verbatim>\<open>counts\<close> are filled by the same loop with the same keys; they are
  one list of triples \<open>(idx, scores[idx], counts[idx])\<close> here, and \<^verbatim>\<open>final_scores\<close>
  multiplies the two components.
\<close>

definition combmnz_sem_score :: "score_dict \<Rightarrow> int \<Rightarrow> real" where
  "combmnz_sem_score semantic_dict idx = (case dict_get semantic_dict idx of Some s \<Rightarrow> s | None \<Rightarrow> 0)"

definition combmnz_kw_score :: "score_dict \<Rightarrow> real \<Rightarrow> int \<Rightarrow> real" where
  "combmnz_kw_score keyword_dict max_keyword idx =
     (if max_keyword > 0
      then (case dict_get keyword_dict idx of Some s \<Rightarrow> s | None \<Rightarrow> 0) / max_keyword
      else 0)"

definition combmnz_count :: "real \<Rightarrow> real \<Rightarrow> nat" where
  "combmnz_count sem_score kw_score =
     (if sem_score > 0 then 1 else 0) + (if kw_score > 0 then 1 else 0)"

definition combmnz_scores_counts ::
  "(int list \<Rightarrow> int list) \<Rightarrow> candidate list \<Rightarrow> candidate list \<Rightarrow> (int \<times> real \<times> nat) list" where
  "combmnz_scores_counts set_iter semantic_results keyword_results =
     (let semantic_dict = py_dict semantic_results;
          keyword_dict = py_dict keyword_results;
          max_keyword = (if keyword_dict \<noteq> [] then py_max (map snd keyword_dict) else 1);
          all_indices = set_iter (remdups (map fst semantic_dict @ map fst keyword_dict))
      in map (\<lambda>idx.
                let sem_score = combmnz_sem_score semantic_dict idx;
                    kw_score = combmnz_kw_score keyword_dict max_keyword idx
                in (idx, sem_score + kw_score, combmnz_count sem_score kw_score))
             all_indices)"

definition fuse_combmnz ::
  "(int list \<Rightarrow> int list) \<Rightarrow> candidate list \<Rightarrow> candidate list \<Rightarrow> candidate list" where
  "fuse_combmnz set_iter semantic_results keyword_results =
     (let final_scores =
            map (\<lambda>(idx, score, count). (idx, score * real count))
                (combmnz_scores_counts set_iter semantic_results keyword_results)
      in sorted_desc final_scores)"

text \<open>
  The multiplier in the words of the specification: the number of the two candidate
  lists in which the item appears with a nonzero score.
\<close>

definition lists_with_nonzero_score :: "score_dict \<Rightarrow> score_dict \<Rightarrow> int \<Rightarrow> nat" where
  "lists_with_nonzero_score semantic_dict keyword_dict idx =
     (case dict_get semantic_dict idx of Some s \<Rightarrow> if s \<noteq> 0 then 1 else 0 | None \<Rightarrow> 0)
     + (case dict_get keyword_dict idx of Some s \<Rightarrow> if s \<noteq> 0 then 1 else 0 | None \<Rightarrow> 0)"

subsection \<open>Order of first insertion\<close>

text \<open>
  The keys of a dictionary filled by a sequence of assignments: each key at the
  position of its first assignment.
\<close>

definition insert_new :: "'k list \<Rightarrow> 'k \<Rightarrow> 'k list" where
  "insert_new acc k = (if k \<in> set acc then acc else acc @ [k])"

definition first_seen :: "'k list \<Rightarrow> 'k list" where
  "first_seen ks = foldl insert_new [] ks"

subsection \<open>The engine\<close>

text \<open>
  Item dictionaries map field names to scalar values. \<^verbatim>\<open>item.get(k)\<close> is \<^verbatim>\<open>None\<close> for a
  missing field.
\<close>

datatype pyval = PNone | PStr string | PInt int

type_synonym item = "(string \<times> pyval) list"

record SearchResult =
  sr_id :: string
  sr_text :: pyval
  sr_score :: real
  sr_metadata :: item

text \<open>
  The state of a \<^verbatim>\<open>HybridSearchEngine\<close>. \<open>model\<close> is the sentence encoder applied to a
  query; \<open>vector_index\<close> is the search method of the FAISS index (query embedding and
  number of neighbours to candidate pairs); \<open>bm25\<close> is the \<^verbatim>\<open>get_scores\<close> method of the
  BM25 ranker, which returns one score per indexed document. The two indexes are
  \<^verbatim>\<open>None\<close> until \<^verbatim>\<open>add_items\<close> has built them.
\<close>

record engine =
  model :: "string \<Rightarrow> py_error + real list"
  fusion_strategy :: string
  semantic_weight :: real
  keyword_weight :: real
  items :: "item list"
  vector_index :: "(real list \<Rightarrow> int \<Rightarrow> py_error + candidate list) option"
  bm25 :: "(string list \<Rightarrow> real list) option"

text \<open>\<^verbatim>\<open>__init__\<close>: the configuration is stored, the storage is empty.\<close>

definition init :: "(string \<Rightarrow> py_error + real list) \<Rightarrow> string \<Rightarrow> real \<Rightarrow> real \<Rightarrow> engine" where
  "init encoder strategy sw kw =
     \<lparr>model = encoder, fusion_strategy = strategy, semantic_weight = sw, keyword_weight = kw,
      items = [], vector_index = None, bm25 = None\<rparr>"

text \<open>
  \<^verbatim>\<open>_tokenize\<close>: \<^verbatim>\<open>re.findall(r'\w+', text.lower())\<close>, the maximal runs of word characters
  of the lowercased text. Characters are bytes here, so the model covers ASCII text: the
  word characters are the letters, the digits and the underscore.
\<close>

definition lower_char :: "char \<Rightarrow> char" where
  "lower_char c =
     (let n = (of_char c :: nat) in if 65 \<le> n \<and> n \<le> 90 then char_of (n + 32) else c)"

definition is_word_char :: "char \<Rightarrow> bool" where
  "is_word_char c =
     (let n = (of_char c :: nat)
      in (48 \<le> n \<and> n \<le> 57) \<or> (65 \<le> n \<and> n \<le> 90) \<or> n = 95 \<or> (97 \<le> n \<and> n \<le> 122))"

fun findall_words :: "string \<Rightarrow> string \<Rightarrow> string list" where
  "findall_words [] cur = (if cur = [] then [] else [cur])"
| "findall_words (c # cs) cur =
     (if is_word_char c then findall_words cs (cur @ [c])
      else (if cur = [] then [] else [cur]) @ findall_words cs [])"

definition tokenize :: "string \<Rightarrow> string list" where
  "tokenize text = findall_words (map lower_char text) []"

text \<open>
  The calls the engine makes to its collaborators are recorded in the order they happen,
  so that what has run before an exception is part of the result.
\<close>

datatype event = EncodeQuery | VectorSearch | BM25Scores

text \<open>
  \<^verbatim>\<open>_semantic_search\<close>: the query is encoded first; \<^verbatim>\<open>self.vector_index.search\<close> on an
  index that is still \<^verbatim>\<open>None\<close> raises \<^verbatim>\<open>AttributeError\<close>.
\<close>

definition semantic_search ::
  "engine \<Rightarrow> string \<Rightarrow> int \<Rightarrow> event list \<times> (py_error + candidate list)" where
  "semantic_search e query top_k =
     (case model e query of
        Inl err \<Rightarrow> ([EncodeQuery], Inl err)
      | Inr query_embedding \<Rightarrow>
          (case vector_index e of
             None \<Rightarrow> ([EncodeQuery], Inl AttributeError)
           | Some index_search \<Rightarrow> ([EncodeQuery, VectorSearch], index_search query_embedding top_k)))"

text \<open>
  \<^verbatim>\<open>np.argsort(scores)\<close>: the positions of the array in ascending order of score. Positions
  with equal scores are kept in ascending order (numpy does not promise an order among
  them).
\<close>

definition argsort :: "real list \<Rightarrow> nat list" where
  "argsort scores = sort_key (\<lambda>i. scores ! i) [0..<length scores]"

text \<open>
  \<^verbatim>\<open>_keyword_search\<close>: every document gets a score from the ranker, the positions are sorted by
  descending score and the first \<^verbatim>\<open>top_k\<close> are returned with their scores.
\<close>

definition keyword_search ::
  "engine \<Rightarrow> string \<Rightarrow> int \<Rightarrow> event list \<times> (py_error + candidate list)" where
  "keyword_search e query top_k =
     (let query_tokens = tokenize query
      in (case bm25 e of
            None \<Rightarrow> ([], Inl AttributeError)
          | Some get_scores \<Rightarrow>
              (let scores = get_scores query_tokens;
                   top_indices = py_take top_k (rev (argsort scores))
               in ([BM25Scores], Inr (map (\<lambda>idx. (int idx, scores ! idx)) top_indices)))))"

text \<open>The strategy dispatch of \<^verbatim>\<open>search\<close>; \<^verbatim>\<open>_fuse_rrf\<close> is called with its default \<open>k = 60\<close>.\<close>

definition search_fuse ::
  "(int list \<Rightarrow> int list) \<Rightarrow> engine \<Rightarrow> candidate list \<Rightarrow> candidate list \<Rightarrow> py_error + candidate list" where
  "search_fuse set_iter e semantic_results keyword_results =
     (if fusion_strategy e = ''weighted''
        then Inr (fuse_weighted (semantic_weight e) (keyword_weight e) semantic_results keyword_results)
      else if fusion_strategy e = ''rrf''
        then fuse_rrf 60 semantic_results keyword_results
      else if fusion_strategy e = ''combmnz''
        then Inr (fuse_combmnz set_iter semantic_results keyword_results)
      else Inl ValueError)"

definition item_get :: "item \<Rightarrow> string \<Rightarrow> pyval" where
  "item_get it k = (case dict_get it k of Some v \<Rightarrow> v | None \<Rightarrow> PNone)"

text \<open>\<^verbatim>\<open>all(item.get(k) == v for k, v in filters.items())\<close>\<close>

definition filters_match :: "item \<Rightarrow> (string \<times> pyval) list \<Rightarrow> bool" where
  "filters_match it filters = list_all (\<lambda>(k, v). item_get it k = v) filters"

text \<open>
  \<^verbatim>\<open>if filters:\<close> is false for \<^verbatim>\<open>None\<close> and for the empty dictionary; an item passes when
  no filters are given or when it matches them all.
\<close>

definition item_passes :: "(string \<times> pyval) list option \<Rightarrow> item \<Rightarrow> bool" where
  "item_passes filters it =
     (case filters of
        None \<Rightarrow> True
      | Some f \<Rightarrow> if f \<noteq> [] then filters_match it f else True)"

text \<open>\<^verbatim>\<open>str(idx)\<close>\<close>

fun digits :: "nat \<Rightarrow> string" where
  "digits n =
     (if n < 10 then [char_of (48 + n)] else digits (n div 10) @ [char_of (48 + n mod 10)])"

declare digits.simps [simp del]

definition py_str :: "int \<Rightarrow> string" where
  "py_str i = (if i < 0 then CHR ''-'' # digits (nat (- i)) else digits (nat i))"

definition make_result :: "item \<Rightarrow> int \<Rightarrow> real \<Rightarrow> SearchResult" where
  "make_result it idx score =
     \<lparr>sr_id = py_str idx,
      sr_text = (case dict_get it ''text'' of Some v \<Rightarrow> v | None \<Rightarrow> PStr []),
      sr_score = score,
      sr_metadata = filter (\<lambda>(k, v). k \<noteq> ''text'') it\<rparr>"

text \<open>
  The loop of \<^verbatim>\<open>search\<close> over the fused list: look the item up, skip it when the filters
  reject it, append the result otherwise, and leave the loop once \<^verbatim>\<open>len(results) >= top_k\<close>.
\<close>

fun search_filter_loop ::
  "item list \<Rightarrow> (string \<times> pyval) list option \<Rightarrow> int \<Rightarrow> candidate list \<Rightarrow> SearchResult list
     \<Rightarrow> py_error + SearchResult list" where
  "search_filter_loop its filters top_k [] results = Inr results"
| "search_filter_loop its filters top_k ((idx, score) # rest) results =
     (case py_index its idx of
        Inl err \<Rightarrow> Inl err
      | Inr it \<Rightarrow>
          if \<not> item_passes filters it then search_filter_loop its filters top_k rest results
          else (let results = results @ [make_result it idx score]
                in if int (length results) \<ge> top_k then Inr results
                   else search_filter_loop its filters top_k rest results))"

text \<open>
  The loop in closed form needs a name for what it does with one fused candidate: the
  candidate passes when its index denotes an item and that item passes the filters,
  and its result is the result built from that item.
\<close>

definition candidate_passes :: "item list \<Rightarrow> (string \<times> pyval) list option \<Rightarrow> candidate \<Rightarrow> bool" where
  "candidate_passes its filters c =
     (case py_index its (fst c) of Inl err \<Rightarrow> False | Inr it \<Rightarrow> item_passes filters it)"

definition candidate_result :: "item list \<Rightarrow> candidate \<Rightarrow> SearchResult" where
  "candidate_result its c =
     (case py_index its (fst c) of
        Inl err \<Rightarrow> make_result [] (fst c) (snd c)
      | Inr it \<Rightarrow> make_result it (fst c) (snd c))"

text \<open>
  The first half of \<^verbatim>\<open>search\<close>: both retrievals with \<^verbatim>\<open>search_top_k\<close> candidates each,
  then the fusion. The strategy is looked at only after both retrievals have returned.
\<close>

definition search_fused ::
  "(int list \<Rightarrow> int list) \<Rightarrow> engine \<Rightarrow> string \<Rightarrow> int
     \<Rightarrow> event list \<times> (py_error + candidate list)" where
  "search_fused set_iter e query search_top_k =
     (case semantic_search e query search_top_k of
        (ev1, Inl err) \<Rightarrow> (ev1, Inl err)
      | (ev1, Inr semantic_results) \<Rightarrow>
          (case keyword_search e query search_top_k of
             (ev2, Inl err) \<Rightarrow> (ev1 @ ev2, Inl err)
           | (ev2, Inr keyword_results) \<Rightarrow>
               (ev1 @ ev2, search_fuse set_iter e semantic_results keyword_results)))"

text \<open>\<^verbatim>\<open>search\<close>: the fused candidates go through the filter loop, starting from no results.\<close>

definition search ::
  "(int list \<Rightarrow> int list) \<Rightarrow> engine \<Rightarrow> string \<Rightarrow> int \<Rightarrow> (string \<times> pyval) list option \<Rightarrow> int
     \<Rightarrow> event list \<times> (py_error + SearchResult list)" where
  "search set_iter e query top_k filters search_top_k =
     (case search_fused set_iter e query search_top_k of
        (ev, Inl err) \<Rightarrow> (ev, Inl err)
      | (ev, Inr fused) \<Rightarrow> (ev, search_filter_loop (items e) filters top_k fused []))"

text \<open>
  The ranker the engine is built with is \<^verbatim>\<open>BM25Okapi\<close> of the package \<^verbatim>\<open>rank_bm25\<close>. Its
  \<^verbatim>\<open>get_scores\<close> starts from a zero score for every document of the corpus and adds, for
  each query token, the token's inverse document frequency times the saturated,
  length-normalised term frequency. The table of inverse document frequencies, which
  the package computes from logarithms when the index is built, is the parameter \<open>idf\<close>;
  \<open>k1\<close> and \<open>b\<close> are the package's two constants.
\<close>

definition bm25_get_scores ::
  "(string \<Rightarrow> real) \<Rightarrow> real \<Rightarrow> real \<Rightarrow> string list list \<Rightarrow> string list \<Rightarrow> real list" where
  "bm25_get_scores idf k1 b corpus query =
     (let avgdl = real (sum_list (map length corpus)) / real (length corpus)
      in map (\<lambda>doc.
                sum_list (map (\<lambda>q.
                  let q_freq = real (count_list doc q)
                  in idf q * (q_freq * (k1 + 1)
                       / (q_freq + k1 * (1 - b + b * real (length doc) / avgdl))))
                  query))
             corpus)"

subsection \<open>Example engines\<close>

text \<open>
  Two small stand-in engines for evaluating the definitions on concrete inputs. They
  are not what \<^verbatim>\<open>add_items\<close> would build: the encoder and the vector index are made up
  (fixed answers), and the BM25 scores use a made-up table in which every token has
  inverse document frequency 1, where the package computes it from logarithms. The
  first engine has one document and a vector index that always answers with that one
  candidate, where FAISS would pad its answer to \<^verbatim>\<open>search_top_k\<close> entries.
\<close>

definition example_encoder :: "string \<Rightarrow> py_error + real list" where
  "example_encoder query = Inr [1]"

definition example_vector_search :: "real list \<Rightarrow> int \<Rightarrow> py_error + candidate list" where
  "example_vector_search embedding top_k = Inr [(0, 1 / 2)]"

definition example_idf :: "string \<Rightarrow> real" where
  "example_idf token = 1"

definition example_engine :: "string \<Rightarrow> engine" where
  "example_engine strategy =
     (init example_encoder strategy (7 / 10) (3 / 10))
       \<lparr>items := [[(''text'', PStr ''cooking pasta''), (''category'', PStr ''food'')]],
        vector_index := Some example_vector_search,
        bm25 := Some (bm25_get_scores example_idf (3 / 2) (3 / 4) [[''cooking'', ''pasta'']])\<rparr>"

text \<open>
  The second engine has three documents. Its vector index ranks them 0, 2, 1 and
  returns the first \<^verbatim>\<open>top_k\<close> of that ranking, so a search with \<^verbatim>\<open>search_top_k = 3\<close> gets
  three candidates from either index.
\<close>

definition example_catalogue_items :: "item list" where
  "example_catalogue_items =
     [[(''text'', PStr ''neural networks learn''), (''kind'', PStr ''paper'')],
      [(''text'', PStr ''cooking pasta recipes''), (''kind'', PStr ''paper'')],
      [(''text'', PStr ''deep neural nets''), (''kind'', PStr ''blog'')]]"

definition example_ranked_search :: "real list \<Rightarrow> int \<Rightarrow> py_error + candidate list" where
  "example_ranked_search embedding top_k = Inr (py_take top_k [(0, 9 / 10), (2, 4 / 5), (1, 1 / 10)])"

definition example_catalogue :: "string \<Rightarrow> engine" where
  "example_catalogue strategy =
     (init example_encoder strategy (7 / 10) (3 / 10))
       \<lparr>items := example_catalogue_items,
        vector_index := Some example_ranked_search,
        bm25 := Some (bm25_get_scores example_idf (3 / 2) (3 / 4)
                       [[''neural'', ''networks'', ''learn''],
                        [''cooking'', ''pasta'', ''recipes''],
                        [''deep'', ''neural'', ''nets'']])\<rparr>"

subsection \<open>The similarity benchmarker\<close>

record BenchmarkResult =
  algorithm :: string
  parameters :: "(string \<times> int) list"
  recall_at_10 :: "real option"
  recall_at_100 :: "real option"
  queries_per_second :: "real option"
  latency_p50_ms :: "real option"
  latency_p95_ms :: "real option"
  latency_p99_ms :: "real option"
  index_size_mb :: real
  build_time_seconds :: real

text \<open>
  The state of a \<^verbatim>\<open>SimilarityBenchmarker\<close>: the database and query vectors and the
  ground-truth neighbour indices, one row per query.
\<close>

record benchmarker =
  database :: "real list list"
  queries :: "real list list"
  ground_truth :: "int list list"
  n_vectors :: nat
  dimension :: nat

text \<open>
  What the benchmarker uses of FAISS, of the clock and of numpy. Building an index
  returns the index and the seconds the build took; a search returns the milliseconds
  it took and the row of neighbour indices; either may raise. The query-time parameter
  that the code assigns to the index before searching (\<^verbatim>\<open>nprobe\<close>, \<^verbatim>\<open>efSearch\<close>) is an
  argument of the search.
\<close>

record 'ix faiss_env =
  flat_build :: "real list list \<Rightarrow> py_error + ('ix \<times> real)"
  flat_search :: "'ix \<Rightarrow> real list \<Rightarrow> int \<Rightarrow> py_error + (real \<times> int list)"
  hnsw_build :: "real list list \<Rightarrow> int \<Rightarrow> int \<Rightarrow> py_error + ('ix \<times> real)"
  hnsw_search :: "'ix \<Rightarrow> int \<Rightarrow> real list \<Rightarrow> int \<Rightarrow> py_error + (real \<times> int list)"
  ivf_build :: "real list list \<Rightarrow> int \<Rightarrow> py_error + ('ix \<times> real)"
  ivfpq_build :: "real list list \<Rightarrow> int \<Rightarrow> int \<Rightarrow> int \<Rightarrow> py_error + ('ix \<times> real)"
  ivf_search :: "'ix \<Rightarrow> int \<Rightarrow> real list \<Rightarrow> int \<Rightarrow> py_error + (real \<times> int list)"
  percentile :: "real list \<Rightarrow> real \<Rightarrow> real option"

text \<open>\<^verbatim>\<open>np.mean\<close>: NaN, here \<open>None\<close>, for no values.\<close>

definition np_mean :: "real list \<Rightarrow> real option" where
  "np_mean xs = (if xs = [] then None else Some (sum_list xs / real (length xs)))"

text \<open>\<^verbatim>\<open>1000 / np.mean(latencies)\<close>: not a finite number when the mean is NaN or zero.\<close>

definition qps_of :: "real list \<Rightarrow> real option" where
  "qps_of latencies =
     (case np_mean latencies of
        None \<Rightarrow> None
      | Some m \<Rightarrow> if m = 0 then None else Some (1000 / m))"

text \<open>
  \<^verbatim>\<open>_compute_recall\<close>. The rows are paired by \<^verbatim>\<open>zip\<close>; each recall divides by the size of
  the ground-truth set, and \<^verbatim>\<open>ZeroDivisionError\<close> is raised when that set is empty.
\<close>

fun recall_rows :: "int \<Rightarrow> (int list \<times> int list) list \<Rightarrow> real list \<Rightarrow> py_error + real list" where
  "recall_rows k [] recalls = Inr recalls"
| "recall_rows k ((pred, truth) # rest) recalls =
     (let pred_k = set (py_take k pred);
          truth_k = set (py_take k truth)
      in if card truth_k = 0 then Inl ZeroDivisionError
         else recall_rows k rest
                (recalls @ [real (card (pred_k \<inter> truth_k)) / real (card truth_k)]))"

definition compute_recall :: "int list list \<Rightarrow> int list list \<Rightarrow> int \<Rightarrow> py_error + real option" where
  "compute_recall predicted truth k =
     (case recall_rows k (zip predicted truth) [] of
        Inl err \<Rightarrow> Inl err
      | Inr recalls \<Rightarrow> Inr (np_mean recalls))"

text \<open>The recall of one pair of rows, the quantity the loop above appends.\<close>

definition row_recall :: "int \<Rightarrow> int list \<times> int list \<Rightarrow> real" where
  "row_recall k row =
     real (card (set (py_take k (fst row)) \<inter> set (py_take k (snd row))))
       / real (card (set (py_take k (snd row))))"

text \<open>The query loop shared by the benchmarks: latencies and index rows are appended per query.\<close>

fun search_queries ::
  "(real list \<Rightarrow> py_error + (real \<times> int list)) \<Rightarrow> real list list \<Rightarrow> real list \<Rightarrow> int list list
     \<Rightarrow> py_error + (real list \<times> int list list)" where
  "search_queries do_search [] latencies all_indices = Inr (latencies, all_indices)"
| "search_queries do_search (query # rest) latencies all_indices =
     (case do_search query of
        Inl err \<Rightarrow> Inl err
      | Inr (ms, indices) \<Rightarrow>
          search_queries do_search rest (latencies @ [ms]) (all_indices @ [indices]))"

definition database_mb :: "benchmarker \<Rightarrow> real" where
  "database_mb bm = real (n_vectors bm * dimension bm * 4) / 1024 / 1024"

text \<open>\<^verbatim>\<open>benchmark_exact\<close>: only the latencies are measured; both recalls are the constant 1.0.\<close>

definition benchmark_exact :: "'ix faiss_env \<Rightarrow> benchmarker \<Rightarrow> py_error + BenchmarkResult" where
  "benchmark_exact env bm =
     (case flat_build env (database bm) of
        Inl err \<Rightarrow> Inl err
      | Inr (index, build_time) \<Rightarrow>
          (case search_queries (\<lambda>query. flat_search env index query 10) (queries bm) [] [] of
             Inl err \<Rightarrow> Inl err
           | Inr (latencies, _) \<Rightarrow>
               Inr \<lparr>algorithm = ''Exact'', parameters = [],
                    recall_at_10 = Some 1, recall_at_100 = Some 1,
                    queries_per_second = qps_of latencies,
                    latency_p50_ms = percentile env latencies 50,
                    latency_p95_ms = percentile env latencies 95,
                    latency_p99_ms = percentile env latencies 99,
                    index_size_mb = database_mb bm,
                    build_time_seconds = build_time\<rparr>))"

text \<open>
  The body that \<^verbatim>\<open>benchmark_hnsw\<close>, \<^verbatim>\<open>benchmark_ivf\<close> and \<^verbatim>\<open>benchmark_ivfpq\<close> repeat for one
  parameter combination: search every query for 100 neighbours, compute both recalls,
  build the result.
\<close>

definition measure_combination ::
  "'ix faiss_env \<Rightarrow> benchmarker \<Rightarrow> (real list \<Rightarrow> py_error + (real \<times> int list)) \<Rightarrow> string
     \<Rightarrow> (string \<times> int) list \<Rightarrow> real \<Rightarrow> real \<Rightarrow> py_error + BenchmarkResult" where
  "measure_combination env bm do_search algo params size_mb build_time =
     (case search_queries do_search (queries bm) [] [] of
        Inl err \<Rightarrow> Inl err
      | Inr (latencies, all_indices) \<Rightarrow>
          (case compute_recall all_indices (ground_truth bm) 10 of
             Inl err \<Rightarrow> Inl err
           | Inr recall_10 \<Rightarrow>
               (case compute_recall all_indices (ground_truth bm) 100 of
                  Inl err \<Rightarrow> Inl err
                | Inr recall_100 \<Rightarrow>
                    Inr \<lparr>algorithm = algo, parameters = params,
                         recall_at_10 = recall_10, recall_at_100 = recall_100,
                         queries_per_second = qps_of latencies,
                         latency_p50_ms = percentile env latencies 50,
                         latency_p95_ms = percentile env latencies 95,
                         latency_p99_ms = percentile env latencies 99,
                         index_size_mb = size_mb,
                         build_time_seconds = build_time\<rparr>)))"

text \<open>
  \<^verbatim>\<open>benchmark_ivf\<close>: the outer loop builds one index per \<^verbatim>\<open>nlist\<close>, the inner loop measures
  it for every \<^verbatim>\<open>nprobe\<close> and appends to \<^verbatim>\<open>results\<close>. Nothing catches an exception, so the
  first one ends both loops and the function.
\<close>

fun ivf_nprobe_loop ::
  "'ix faiss_env \<Rightarrow> benchmarker \<Rightarrow> 'ix \<Rightarrow> real \<Rightarrow> int \<Rightarrow> int list \<Rightarrow> BenchmarkResult list
     \<Rightarrow> py_error + BenchmarkResult list" where
  "ivf_nprobe_loop env bm index build_time nlist [] results = Inr results"
| "ivf_nprobe_loop env bm index build_time nlist (nprobe # rest) results =
     (case measure_combination env bm (\<lambda>query. ivf_search env index nprobe query 100) ''IVF''
             [(''nlist'', nlist), (''nprobe'', nprobe)] (database_mb bm) build_time of
        Inl err \<Rightarrow> Inl err
      | Inr r \<Rightarrow> ivf_nprobe_loop env bm index build_time nlist rest (results @ [r]))"

fun ivf_nlist_loop ::
  "'ix faiss_env \<Rightarrow> benchmarker \<Rightarrow> int list \<Rightarrow> int list \<Rightarrow> BenchmarkResult list
     \<Rightarrow> py_error + BenchmarkResult list" where
  "ivf_nlist_loop env bm [] nprobe_values results = Inr results"
| "ivf_nlist_loop env bm (nlist # rest) nprobe_values results =
     (case ivf_build env (database bm) nlist of
        Inl err \<Rightarrow> Inl err
      | Inr (index, build_time) \<Rightarrow>
          (case ivf_nprobe_loop env bm index build_time nlist nprobe_values results of
             Inl err \<Rightarrow> Inl err
           | Inr results \<Rightarrow> ivf_nlist_loop env bm rest nprobe_values results))"

definition benchmark_ivf ::
  "'ix faiss_env \<Rightarrow> benchmarker \<Rightarrow> int list \<Rightarrow> int list \<Rightarrow> py_error + BenchmarkResult list" where
  "benchmark_ivf env bm nlist_values nprobe_values =
     ivf_nlist_loop env bm nlist_values nprobe_values []"

text \<open>\<^verbatim>\<open>benchmark_hnsw\<close>: three nested loops, one index per pair \<^verbatim>\<open>(M, efConstruction)\<close>.\<close>

fun hnsw_ef_search_loop ::
  "'ix faiss_env \<Rightarrow> benchmarker \<Rightarrow> 'ix \<Rightarrow> real \<Rightarrow> int \<Rightarrow> int \<Rightarrow> int list \<Rightarrow> BenchmarkResult list
     \<Rightarrow> py_error + BenchmarkResult list" where
  "hnsw_ef_search_loop env bm index build_time M efc [] results = Inr results"
| "hnsw_ef_search_loop env bm index build_time M efc (ef_search # rest) results =
     (case measure_combination env bm (\<lambda>query. hnsw_search env index ef_search query 100) ''HNSW''
             [(''M'', M), (''efConstruction'', efc), (''efSearch'', ef_search)]
             (database_mb bm * (12 / 10)) build_time of
        Inl err \<Rightarrow> Inl err
      | Inr r \<Rightarrow> hnsw_ef_search_loop env bm index build_time M efc rest (results @ [r]))"

fun hnsw_ef_construction_loop ::
  "'ix faiss_env \<Rightarrow> benchmarker \<Rightarrow> int \<Rightarrow> int list \<Rightarrow> int list \<Rightarrow> BenchmarkResult list
     \<Rightarrow> py_error + BenchmarkResult list" where
  "hnsw_ef_construction_loop env bm M [] ef_search_values results = Inr results"
| "hnsw_ef_construction_loop env bm M (efc # rest) ef_search_values results =
     (case hnsw_build env (database bm) M efc of
        Inl err \<Rightarrow> Inl err
      | Inr (index, build_time) \<Rightarrow>
          (case hnsw_ef_search_loop env bm index build_time M efc ef_search_values results of
             Inl err \<Rightarrow> Inl err
           | Inr results \<Rightarrow> hnsw_ef_construction_loop env bm M rest ef_search_values results))"

fun hnsw_M_loop ::
  "'ix faiss_env \<Rightarrow> benchmarker \<Rightarrow> int list \<Rightarrow> int list \<Rightarrow> int list \<Rightarrow> BenchmarkResult list
     \<Rightarrow> py_error + BenchmarkResult list" where
  "hnsw_M_loop env bm [] efc_values ef_search_values results = Inr results"
| "hnsw_M_loop env bm (M # rest) efc_values ef_search_values results =
     (case hnsw_ef_construction_loop env bm M efc_values ef_search_values results of
        Inl err \<Rightarrow> Inl err
      | Inr results \<Rightarrow> hnsw_M_loop env bm rest efc_values ef_search_values results)"

definition benchmark_hnsw ::
  "'ix faiss_env \<Rightarrow> benchmarker \<Rightarrow> int list \<Rightarrow> int list \<Rightarrow> int list \<Rightarrow> py_error + BenchmarkResult list" where
  "benchmark_hnsw env bm M_values ef_construction_values ef_search_values =
     hnsw_M_loop env bm M_values ef_construction_values ef_search_values []"

text \<open>\<^verbatim>\<open>benchmark_ivfpq\<close>: one index, one loop over \<^verbatim>\<open>nprobe\<close>.\<close>

fun ivfpq_nprobe_loop ::
  "'ix faiss_env \<Rightarrow> benchmarker \<Rightarrow> 'ix \<Rightarrow> real \<Rightarrow> int \<Rightarrow> int \<Rightarrow> int \<Rightarrow> int list \<Rightarrow> BenchmarkResult list
     \<Rightarrow> py_error + BenchmarkResult list" where
  "ivfpq_nprobe_loop env bm index build_time nlist m nbits [] results = Inr results"
| "ivfpq_nprobe_loop env bm index build_time nlist m nbits (nprobe # rest) results =
     (case measure_combination env bm (\<lambda>query. ivf_search env index nprobe query 100) ''IVF+PQ''
             [(''nlist'', nlist), (''m'', m), (''nbits'', nbits), (''nprobe'', nprobe)]
             (real (n_vectors bm) * real_of_int m * real_of_int nbits / 8 / 1024 / 1024) build_time of
        Inl err \<Rightarrow> Inl err
      | Inr r \<Rightarrow> ivfpq_nprobe_loop env bm index build_time nlist m nbits rest (results @ [r]))"

definition benchmark_ivfpq ::
  "'ix faiss_env \<Rightarrow> benchmarker \<Rightarrow> int \<Rightarrow> int \<Rightarrow> int \<Rightarrow> int list \<Rightarrow> py_error + BenchmarkResult list" where
  "benchmark_ivfpq env bm nlist m nbits nprobe_values =
     (case ivfpq_build env (database bm) nlist m nbits of
        Inl err \<Rightarrow> Inl err
      | Inr (index, build_time) \<Rightarrow>
          ivfpq_nprobe_loop env bm index build_time nlist m nbits nprobe_values [])"

text \<open>
  \<^verbatim>\<open>run_all_benchmarks\<close> with the default grids of the four benchmarks; the data frame is
  the list of results in order.
\<close>

definition run_all_benchmarks :: "'ix faiss_env \<Rightarrow> benchmarker \<Rightarrow> py_error + BenchmarkResult list" where
  "run_all_benchmarks env bm =
     (case benchmark_exact env bm of
        Inl err \<Rightarrow> Inl err
      | Inr exact \<Rightarrow>
          (case benchmark_hnsw env bm [16, 32] [200, 400] [50, 100, 200] of
             Inl err \<Rightarrow> Inl err
           | Inr hnsw \<Rightarrow>
               (case benchmark_ivf env bm [100, 1000] [1, 10, 50] of
                  Inl err \<Rightarrow> Inl err
                | Inr ivf \<Rightarrow>
                    (case benchmark_ivfpq env bm 1000 64 8 [1, 10, 50] of
                       Inl err \<Rightarrow> Inl err
                     | Inr ivfpq \<Rightarrow> Inr ([exact] @ hnsw @ ivf @ ivfpq)))))"

subsection \<open>An example benchmark environment\<close>

text \<open>
  A stand-in for FAISS and the clock, for evaluating the definitions: every build
  succeeds at once, every search takes one millisecond and returns the neighbours 0 and
  1, and a search with \<^verbatim>\<open>nprobe\<close> below 1 raises, as the library's check of that
  parameter does.
\<close>

definition example_env :: "unit faiss_env" where
  "example_env =
     \<lparr>flat_build = (\<lambda>db. Inr ((), 0)),
      flat_search = (\<lambda>index query k. Inr (1, [0, 1])),
      hnsw_build = (\<lambda>db M efc. Inr ((), 0)),
      hnsw_search = (\<lambda>index ef_search query k. Inr (1, [0, 1])),
      ivf_build = (\<lambda>db nlist. Inr ((), 0)),
      ivfpq_build = (\<lambda>db nlist m nbits. Inr ((), 0)),
      ivf_search = (\<lambda>index nprobe query k.
                      if nprobe \<le> 0 then Inl (LibraryError ''nprobe > 0'') else Inr (1, [0, 1])),
      percentile = (\<lambda>xs p. if xs = [] then None else Some (py_max xs))\<rparr>"

definition example_benchmarker :: benchmarker where
  "example_benchmarker =
     \<lparr>database = [[1, 0], [0, 1]], queries = [[1, 0]], ground_truth = [[0, 1]],
      n_vectors = 2, dimension = 2\<rparr>"

section \<open>Properties of the dictionary model\<close>

lemma dict_set_keys:
  "map fst (dict_set k v d) = (if k \<in> set (map fst d) then map fst d else map fst d @ [k])"
  by (induction d) (force+)

lemma sorted_desc_set: "set (sorted_desc d) = set d"
  by (simp add: sorted_desc_def)

lemma sorted_desc_descending: "sorted_wrt (\<lambda>a b. snd a \<ge> snd b) (sorted_desc d)"
proof -
  have "sorted (map (\<lambda>p. - snd p) (sorted_desc d))"
    unfolding sorted_desc_def by (rule sorted_sort_key)
  then show ?thesis
    by (simp add: sorted_map sorted_wrt_iff_nth_less)
qed

lemma sorted_desc_stable:
  "filter (\<lambda>p. snd p = s) (sorted_desc d) = filter (\<lambda>p. snd p = s) d"
proof -
  have "filter (\<lambda>p. - snd p = - s) (sort_key (\<lambda>p. - snd p) d) = filter (\<lambda>p. - snd p = - s) d"
    by (rule sort_key_stable)
  then show ?thesis by (simp add: sorted_desc_def)
qed

section \<open>Keys of the score dictionaries\<close>

lemma set_insert_new: "set (insert_new acc k) = insert k (set acc)"
  by (auto simp: insert_new_def)

lemma set_foldl_insert_new: "set (foldl insert_new acc ks) = set acc \<union> set ks"
  by (induction ks arbitrary: acc) (auto simp: set_insert_new)

lemma set_first_seen: "set (first_seen ks) = set ks"
  by (simp add: first_seen_def set_foldl_insert_new)

lemma dict_set_insert_new: "map fst (dict_set k v d) = insert_new (map fst d) k"
  by (simp add: dict_set_keys insert_new_def)

lemma weighted_semantic_loop_keys:
  "map fst (weighted_semantic_loop sw xs d) = foldl insert_new (map fst d) (map fst xs)"
  unfolding weighted_semantic_loop_def
  by (induction xs arbitrary: d) (auto simp: dict_set_insert_new split: prod.splits)

lemma weighted_keyword_loop_keys:
  "map fst (weighted_keyword_loop kw m xs d) = foldl insert_new (map fst d) (map fst xs)"
  unfolding weighted_keyword_loop_def
  by (induction xs arbitrary: d)
     (auto simp: dict_set_insert_new Let_def split: prod.splits option.splits)

lemma rrf_semantic_loop_keys:
  "rrf_semantic_loop k r xs d = Inr d' \<Longrightarrow>
     map fst d' = foldl insert_new (map fst d) (map fst xs)"
  by (induction k r xs d rule: rrf_semantic_loop.induct)
     (auto simp: dict_set_insert_new split: if_splits)

lemma rrf_keyword_loop_keys:
  "rrf_keyword_loop k r xs d = Inr d' \<Longrightarrow>
     map fst d' = foldl insert_new (map fst d) (map fst xs)"
  by (induction k r xs d rule: rrf_keyword_loop.induct)
     (auto simp: dict_set_insert_new split: if_splits option.splits)

lemma py_dict_keys: "map fst (py_dict ps) = first_seen (map fst ps)"
proof -
  have "map fst (foldl (\<lambda>d (k, v). dict_set k v d) d ps)
          = foldl insert_new (map fst d) (map fst ps)" for d :: "('a \<times> 'b) list"
    by (induction ps arbitrary: d) (auto simp: dict_set_insert_new split: prod.splits)
  then show ?thesis by (simp add: py_dict_def first_seen_def)
qed

lemma weighted_dict_keys:
  "map fst (weighted_keyword_loop kw m kws (weighted_semantic_loop sw sem []))
     = first_seen (map fst sem @ map fst kws)"
  by (simp add: weighted_keyword_loop_keys weighted_semantic_loop_keys first_seen_def)

lemma rrf_dict_keys:
  assumes "rrf_semantic_loop k 1 sem [] = Inr d1" "rrf_keyword_loop k 1 kws d1 = Inr d2"
  shows "map fst d2 = first_seen (map fst sem @ map fst kws)"
  using rrf_semantic_loop_keys [OF assms(1)] rrf_keyword_loop_keys [OF assms(2)]
  by (simp add: first_seen_def)

lemma combmnz_final_keys:
  "map fst (map (\<lambda>(idx, score, count). (idx, score * real count))
              (combmnz_scores_counts it sem kws))
     = it (remdups (first_seen (map fst sem) @ first_seen (map fst kws)))"
  by (simp add: combmnz_scores_counts_def Let_def py_dict_keys comp_def)

lemma ties_subseq:
  "subseq (map fst (filter (\<lambda>p. snd p = s) (sorted_desc d))) (map fst d)"
  by (simp add: sorted_desc_stable subseq_map)

section \<open>Reciprocal rank fusion returns for a non-negative constant\<close>

lemma rrf_semantic_loop_total:
  "0 < k + r \<Longrightarrow> \<exists>d'. rrf_semantic_loop k r xs d = Inr d'"
  by (induction k r xs d rule: rrf_semantic_loop.induct) auto

lemma rrf_keyword_loop_total:
  "0 < k + r \<Longrightarrow> \<exists>d'. rrf_keyword_loop k r xs d = Inr d'"
  by (induction k r xs d rule: rrf_keyword_loop.induct) auto

lemma fuse_rrf_total:
  assumes "0 \<le> k"
  obtains d1 d2 where "rrf_semantic_loop k 1 sem [] = Inr d1"
    and "rrf_keyword_loop k 1 kws d1 = Inr d2"
    and "fuse_rrf k sem kws = Inr (sorted_desc d2)"
proof -
  from assms have pos: "0 < k + 1" by simp
  obtain d1 where d1: "rrf_semantic_loop k 1 sem [] = Inr d1"
    using rrf_semantic_loop_total [OF pos] by blast
  obtain d2 where d2: "rrf_keyword_loop k 1 kws d1 = Inr d2"
    using rrf_keyword_loop_total [OF pos] by blast
  have "fuse_rrf k sem kws = Inr (sorted_desc d2)"
    by (simp add: fuse_rrf_def d1 d2)
  with d1 d2 that show thesis by blast
qed

section \<open>Bounds of the reciprocal rank scores\<close>

lemma dict_set_subset: "set (dict_set k v d) \<subseteq> insert (k, v) (set d)"
  by (induction d) (auto split: if_splits)

lemma dict_get_SomeD: "dict_get d k = Some v \<Longrightarrow> (k, v) \<in> set d"
  by (induction d) (auto split: if_splits)

lemma rrf_term_bound:
  assumes "0 \<le> k" "1 \<le> r"
  shows "0 < 1 / real_of_int (k + r)" "1 / real_of_int (k + r) \<le> 1 / real_of_int (k + 1)"
  using assms by (auto simp: field_simps)

lemma rrf_semantic_loop_bound:
  assumes "rrf_semantic_loop k r xs d = Inr d'" "0 \<le> k" "1 \<le> r"
    and "\<forall>(i, v) \<in> set d. 0 < v \<and> v \<le> 1 / real_of_int (k + 1)"
  shows "\<forall>(i, v) \<in> set d'. 0 < v \<and> v \<le> 1 / real_of_int (k + 1)"
  using assms
proof (induction k r xs d rule: rrf_semantic_loop.induct)
  case (1 k rank scores)
  then show ?case by simp
next
  case (2 k rank idx uu rest scores)
  from "2.prems" have nz: "k + rank \<noteq> 0" by simp
  have inv: "\<forall>(i, v) \<in> set (dict_set idx (1 / real_of_int (k + rank)) scores).
               0 < v \<and> v \<le> 1 / real_of_int (k + 1)"
    using dict_set_subset [of idx "1 / real_of_int (k + rank)" scores]
      rrf_term_bound [OF "2.prems"(2,3)] "2.prems"(4) by auto
  show ?case
    using "2.IH" [OF nz _ "2.prems"(2) _ inv] "2.prems"(1,3) nz by simp
qed

text \<open>
  In the keyword loop an entry grows by one term each time its index occurs. With no
  index occurring twice, an entry whose index is still to come holds at most the
  semantic term, and every entry holds at most two terms.
\<close>

lemma rrf_keyword_loop_bound:
  assumes "rrf_keyword_loop k r xs d = Inr d'" "0 \<le> k" "1 \<le> r" "distinct (map fst xs)"
    and "\<forall>(i, v) \<in> set d. 0 < v \<and> v \<le> 2 / real_of_int (k + 1)
            \<and> (i \<in> fst ` set xs \<longrightarrow> v \<le> 1 / real_of_int (k + 1))"
  shows "\<forall>(i, v) \<in> set d'. 0 < v \<and> v \<le> 2 / real_of_int (k + 1)"
  using assms
proof (induction k r xs d rule: rrf_keyword_loop.induct)
  case (1 k rank scores)
  then show ?case by auto
next
  case (2 k rank idx uu rest scores)
  from "2.prems" have nz: "k + rank \<noteq> 0" by simp
  let ?c = "1 / real_of_int (k + rank)"
  let ?B = "1 / real_of_int (k + 1)"
  let ?new = "(case dict_get scores idx of Some old \<Rightarrow> old + ?c | None \<Rightarrow> ?c)"
  let ?d = "(case dict_get scores idx of
                Some old \<Rightarrow> dict_set idx (old + ?c) scores
              | None \<Rightarrow> dict_set idx ?c scores)"
  have c: "0 < ?c" "?c \<le> ?B" using rrf_term_bound [OF "2.prems"(2,3)] by auto
  have B2: "?B + ?B = 2 / real_of_int (k + 1)" by simp
  have idx_notin: "idx \<notin> fst ` set rest" using "2.prems"(4) by auto
  have old: "dict_get scores idx = Some old \<Longrightarrow> 0 < old \<and> old \<le> ?B" for old
    using dict_get_SomeD [of scores idx old] "2.prems"(5) by fastforce
  have sub: "set ?d \<subseteq> insert (idx, ?new) (set scores)"
    using dict_set_subset [of idx _ scores] by (auto split: option.splits)
  have newv: "0 < ?new \<and> ?new \<le> 2 / real_of_int (k + 1)"
  proof (cases "dict_get scores idx")
    case None
    from c B2 have "0 < ?c \<and> ?c \<le> 2 / real_of_int (k + 1)" by linarith
    then show ?thesis by (simp only: None option.case)
  next
    case (Some old)
    from old [OF Some] c B2
    have "0 < old + ?c \<and> old + ?c \<le> 2 / real_of_int (k + 1)" by linarith
    then show ?thesis by (simp only: Some option.case)
  qed
  have inv: "\<forall>(i, v) \<in> set ?d. 0 < v \<and> v \<le> 2 / real_of_int (k + 1)
            \<and> (i \<in> fst ` set rest \<longrightarrow> v \<le> ?B)"
  proof (clarify)
    fix i v assume iv: "(i, v) \<in> set ?d"
    show "0 < v \<and> v \<le> 2 / real_of_int (k + 1) \<and> (i \<in> fst ` set rest \<longrightarrow> v \<le> ?B)"
    proof (cases "(i, v) \<in> set scores")
      case True
      then show ?thesis using "2.prems"(5) by fastforce
    next
      case False
      with iv sub have "i = idx" "v = ?new" by auto
      then show ?thesis using newv idx_notin by simp
    qed
  qed
  have dist: "distinct (map fst rest)" using "2.prems"(4) by simp
  have run: "rrf_keyword_loop k (rank + 1) rest ?d = Inr d'"
    using "2.prems"(1) nz by simp
  have r1: "1 \<le> rank + 1" using "2.prems"(3) by simp
  show ?case
    using "2.IH" [OF nz run "2.prems"(2) r1 dist inv] .
qed

section \<open>Claims about score fusion\<close>

text \<open>
  C1, as the code has it. For each of the three strategies the fused list is in
  descending order of fused score. Entries with equal fused score are not ordered by
  item index: they keep the order in which their indices entered the score dictionary,
  that is the order of first occurrence in the semantic list followed by the keyword
  list for Weighted and RRF, and the iteration order of the index set for CombMNZ.
  For every score \<open>s\<close>, the indices of the output entries with score \<open>s\<close> are a
  subsequence of that insertion order.
\<close>

theorem fused_descending_ties_in_insertion_order:
  "sorted_wrt (\<lambda>a b. snd a \<ge> snd b) (fuse_weighted sw kw sem kws)
   \<and> subseq (map fst (filter (\<lambda>p. snd p = s) (fuse_weighted sw kw sem kws)))
             (first_seen (map fst sem @ map fst kws))
   \<and> (0 \<le> k \<longrightarrow>
        (\<exists>out. fuse_rrf k sem kws = Inr out
           \<and> sorted_wrt (\<lambda>a b. snd a \<ge> snd b) out
           \<and> subseq (map fst (filter (\<lambda>p. snd p = s) out))
                     (first_seen (map fst sem @ map fst kws))))
   \<and> sorted_wrt (\<lambda>a b. snd a \<ge> snd b) (fuse_combmnz it sem kws)
   \<and> subseq (map fst (filter (\<lambda>p. snd p = s) (fuse_combmnz it sem kws)))
             (it (remdups (first_seen (map fst sem) @ first_seen (map fst kws))))"
proof (intro conjI impI)
  show "sorted_wrt (\<lambda>a b. snd a \<ge> snd b) (fuse_weighted sw kw sem kws)"
    by (simp add: fuse_weighted_def Let_def sorted_desc_descending)
  show "subseq (map fst (filter (\<lambda>p. snd p = s) (fuse_weighted sw kw sem kws)))
             (first_seen (map fst sem @ map fst kws))"
    unfolding fuse_weighted_def Let_def
    using ties_subseq [of s "weighted_keyword_loop kw
            (if map snd kws \<noteq> [] then py_max (map snd kws) else 1) kws
            (weighted_semantic_loop sw sem [])"]
    by (simp only: weighted_dict_keys)
  show "sorted_wrt (\<lambda>a b. snd a \<ge> snd b) (fuse_combmnz it sem kws)"
    by (simp add: fuse_combmnz_def Let_def sorted_desc_descending)
  show "subseq (map fst (filter (\<lambda>p. snd p = s) (fuse_combmnz it sem kws)))
             (it (remdups (first_seen (map fst sem) @ first_seen (map fst kws))))"
    unfolding fuse_combmnz_def Let_def
    using ties_subseq [of s "map (\<lambda>(idx, score, count). (idx, score * real count))
            (combmnz_scores_counts it sem kws)"]
    by (simp only: combmnz_final_keys)
next
  assume "0 \<le> k"
  then obtain d1 d2 where d: "rrf_semantic_loop k 1 sem [] = Inr d1"
    "rrf_keyword_loop k 1 kws d1 = Inr d2" "fuse_rrf k sem kws = Inr (sorted_desc d2)"
    by (rule fuse_rrf_total)
  have "sorted_wrt (\<lambda>a b. snd a \<ge> snd b) (sorted_desc d2)"
    by (rule sorted_desc_descending)
  moreover have "subseq (map fst (filter (\<lambda>p. snd p = s) (sorted_desc d2)))
      (first_seen (map fst sem @ map fst kws))"
    using ties_subseq [of s d2] by (simp only: rrf_dict_keys [OF d(1,2)])
  ultimately show "\<exists>out. fuse_rrf k sem kws = Inr out
           \<and> sorted_wrt (\<lambda>a b. snd a \<ge> snd b) out
           \<and> subseq (map fst (filter (\<lambda>p. snd p = s) out))
                     (first_seen (map fst sem @ map fst kws))"
    using d(3) by blast
qed

theorem fused_descending_ties_in_insertion_order_witness:
  "(0::int) \<le> 60
   \<and> (\<exists>out. fuse_rrf 60 [(5, 9 / 10)] [(2, 4)] = Inr out
         \<and> sorted_wrt (\<lambda>a b. snd a \<ge> snd b) out
         \<and> subseq (map fst (filter (\<lambda>p. snd p = 1 / 61) out))
                   (first_seen (map fst [(5 :: int, 9 / 10 :: real)] @ map fst [(2 :: int, 4 :: real)])))"
proof -
  have h: "(0::int) \<le> 60" by simp
  from fused_descending_ties_in_insertion_order
         [where k = 60 and sem = "[(5, 9 / 10)]" and kws = "[(2, 4)]" and s = "1 / 61"] h
  show ?thesis by blast
qed

text \<open>
  C1 as stated fails: two items that are first in their own lists get the same RRF
  score, and item 5, inserted first, precedes item 2.
\<close>

theorem tie_break_counterexample:
  "fuse_rrf 60 [(5, 9 / 10)] [(2, 4)] = Inr [(5, 1 / 61), (2, 1 / 61)]"
  by (simp add: fuse_rrf_def sorted_desc_def)

text \<open>
  C10. The item indices of the fused output are exactly the indices of the two input
  lists, for each strategy. For RRF the smoothing constant is non-negative (the engine
  uses 60), so that no division by zero occurs; for CombMNZ the iteration over the index
  set visits exactly the elements of the set.
\<close>

theorem fused_indices_are_union:
  "fst ` set (fuse_weighted sw kw sem kws) = fst ` set sem \<union> fst ` set kws
   \<and> (0 \<le> k \<longrightarrow>
        (\<exists>out. fuse_rrf k sem kws = Inr out \<and> fst ` set out = fst ` set sem \<union> fst ` set kws))
   \<and> ((\<forall>xs. set (it xs) = set xs) \<longrightarrow>
        fst ` set (fuse_combmnz it sem kws) = fst ` set sem \<union> fst ` set kws)"
proof (intro conjI impI)
  have "set (map fst (fuse_weighted sw kw sem kws)) = set (map fst sem @ map fst kws)"
    unfolding fuse_weighted_def Let_def
    by (simp only: set_map sorted_desc_set)
       (simp only: weighted_dict_keys set_first_seen flip: set_map)
  then show "fst ` set (fuse_weighted sw kw sem kws) = fst ` set sem \<union> fst ` set kws"
    by simp
next
  assume "0 \<le> k"
  then obtain d1 d2 where d: "rrf_semantic_loop k 1 sem [] = Inr d1"
    "rrf_keyword_loop k 1 kws d1 = Inr d2" "fuse_rrf k sem kws = Inr (sorted_desc d2)"
    by (rule fuse_rrf_total)
  have "set (map fst d2) = set (map fst sem @ map fst kws)"
    by (simp only: rrf_dict_keys [OF d(1,2)] set_first_seen)
  then have "fst ` set (sorted_desc d2) = fst ` set sem \<union> fst ` set kws"
    by (simp add: sorted_desc_set)
  with d(3) show "\<exists>out. fuse_rrf k sem kws = Inr out \<and> fst ` set out = fst ` set sem \<union> fst ` set kws"
    by blast
next
  assume it: "\<forall>xs. set (it xs) = set xs"
  have "set (map fst (fuse_combmnz it sem kws))
          = set (it (remdups (first_seen (map fst sem) @ first_seen (map fst kws))))"
    unfolding fuse_combmnz_def Let_def
    by (simp only: set_map sorted_desc_set) (simp only: combmnz_final_keys flip: set_map)
  then show "fst ` set (fuse_combmnz it sem kws) = fst ` set sem \<union> fst ` set kws"
    by (simp add: it set_first_seen)
qed

theorem fused_indices_are_union_witness:
  "(0::int) \<le> 60 \<and> (\<forall>xs :: int list. set (sort xs) = set xs)
   \<and> (\<exists>out. fuse_rrf 60 [(5, 9 / 10), (1, 1 / 2)] [(2, 4), (5, 1)] = Inr out
         \<and> fst ` set out = fst ` set [(5 :: int, 9 / 10 :: real), (1, 1 / 2)] \<union> fst ` set [(2 :: int, 4 :: real), (5, 1)])
   \<and> fst ` set (fuse_combmnz sort [(5, 9 / 10), (1, 1 / 2)] [(2, 4), (5, 1)])
       = fst ` set [(5 :: int, 9 / 10 :: real), (1, 1 / 2)] \<union> fst ` set [(2 :: int, 4 :: real), (5, 1)]"
proof -
  have h1: "(0::int) \<le> 60" by simp
  have h2: "\<forall>xs :: int list. set (sort xs) = set xs" by simp
  from fused_indices_are_union
         [where k = 60 and it = sort and sem = "[(5, 9 / 10), (1, 1 / 2)]"
            and kws = "[(2, 4), (5, 1)]"] h1 h2
  show ?thesis by blast
qed

section \<open>Claims about CombMNZ\<close>

lemma foldl_dict_set_subset:
  "set (foldl (\<lambda>d (k, v). dict_set k v d) d ps) \<subseteq> set d \<union> set ps"
proof (induction ps arbitrary: d)
  case Nil
  then show ?case by simp
next
  case (Cons p ps)
  obtain k v where p: "p = (k, v)" by (cases p)
  have "set (foldl (\<lambda>d (k, v). dict_set k v d) (dict_set k v d) ps)
          \<subseteq> set (dict_set k v d) \<union> set ps"
    by (rule Cons.IH)
  also have "\<dots> \<subseteq> set d \<union> set (p # ps)"
    using dict_set_subset [of k v d] by (auto simp: p)
  finally show ?case by (simp add: p)
qed

lemma py_dict_subset: "set (py_dict ps) \<subseteq> set ps"
  using foldl_dict_set_subset [of "[]" ps] by (simp add: py_dict_def)

lemma py_max_ge: "x \<in> set xs \<Longrightarrow> x \<le> py_max xs"
proof (cases xs)
  case Nil
  then show "x \<in> set xs \<Longrightarrow> x \<le> py_max xs" by simp
next
  case (Cons a as)
  assume "x \<in> set xs"
  then have "x \<le> Max (set (a # as))" unfolding Cons by (intro Max_ge) auto
  moreover have "py_max xs = Max (set (a # as))"
    by (simp only: Cons py_max.simps Max.set_eq_fold)
  ultimately show "x \<le> py_max xs" by simp
qed

lemma combmnz_count_le: "combmnz_count a b \<le> 2"
  by (simp add: combmnz_count_def)

lemma combmnz_count_nonzero:
  assumes sem: "\<forall>(i, s) \<in> set semd. 0 \<le> s" and kw: "\<forall>(i, s) \<in> set kwd. 0 \<le> s"
  shows "combmnz_count (combmnz_sem_score semd idx)
           (combmnz_kw_score kwd (if kwd \<noteq> [] then py_max (map snd kwd) else 1) idx)
         = lists_with_nonzero_score semd kwd idx"
proof -
  let ?M = "if kwd \<noteq> [] then py_max (map snd kwd) else 1"
  have s_part: "(if combmnz_sem_score semd idx > 0 then 1 else 0 :: nat)
      = (case dict_get semd idx of Some s \<Rightarrow> if s \<noteq> 0 then 1 else 0 | None \<Rightarrow> 0)"
  proof (cases "dict_get semd idx")
    case None
    then show ?thesis by (simp add: combmnz_sem_score_def)
  next
    case (Some s)
    with sem dict_get_SomeD [OF Some] have "0 \<le> s" by fastforce
    then show ?thesis by (auto simp: combmnz_sem_score_def Some)
  qed
  have k_part: "(if combmnz_kw_score kwd ?M idx > 0 then 1 else 0 :: nat)
      = (case dict_get kwd idx of Some s \<Rightarrow> if s \<noteq> 0 then 1 else 0 | None \<Rightarrow> 0)"
  proof (cases "dict_get kwd idx")
    case None
    then show ?thesis by (simp add: combmnz_kw_score_def)
  next
    case (Some s)
    have mem: "(idx, s) \<in> set kwd" by (rule dict_get_SomeD [OF Some])
    with kw have nonneg: "0 \<le> s" by fastforce
    show ?thesis
    proof (cases "s = 0")
      case True
      then show ?thesis by (simp add: combmnz_kw_score_def Some)
    next
      case False
      with nonneg have pos: "0 < s" by simp
      from mem have ne: "kwd \<noteq> []" by auto
      from mem have "s \<in> set (map snd kwd)" by force
      then have "s \<le> py_max (map snd kwd)" by (rule py_max_ge)
      with pos have "0 < py_max (map snd kwd)" by linarith
      with pos ne False show ?thesis by (simp add: combmnz_kw_score_def Some)
    qed
  qed
  show ?thesis
    unfolding combmnz_count_def lists_with_nonzero_score_def
    using s_part k_part by simp
qed

lemma fuse_combmnz_mem:
  assumes "(idx, f) \<in> set (fuse_combmnz it sem kws)"
  shows "f = (combmnz_sem_score (py_dict sem) idx
               + combmnz_kw_score (py_dict kws)
                   (if py_dict kws \<noteq> [] then py_max (map snd (py_dict kws)) else 1) idx)
             * real (combmnz_count (combmnz_sem_score (py_dict sem) idx)
                  (combmnz_kw_score (py_dict kws)
                     (if py_dict kws \<noteq> [] then py_max (map snd (py_dict kws)) else 1) idx))"
  using assms
  by (auto simp: fuse_combmnz_def combmnz_scores_counts_def Let_def sorted_desc_set)

text \<open>
  C7, as the code has it. For candidate lists with non-negative scores, the CombMNZ
  score of every output item is the sum of its semantic score (as given, 0 when the
  item is absent) and its keyword score divided by the maximum keyword score (0 when
  the item is absent or that maximum is not positive), multiplied by the number of
  lists in which the item appears with a nonzero score. That multiplier is 0, 1 or 2:
  it is 0 for an item whose only scores are zero.
\<close>

theorem combmnz_score_formula:
  assumes "\<forall>(i, s) \<in> set sem. 0 \<le> s" and "\<forall>(i, s) \<in> set kws. 0 \<le> s"
    and "(idx, f) \<in> set (fuse_combmnz it sem kws)"
  shows "let semantic_dict = py_dict sem;
             keyword_dict = py_dict kws;
             max_keyword = (if keyword_dict \<noteq> [] then py_max (map snd keyword_dict) else 1);
             sem_score = (case dict_get semantic_dict idx of Some s \<Rightarrow> s | None \<Rightarrow> 0);
             kw_score = (if max_keyword > 0
                         then (case dict_get keyword_dict idx of Some s \<Rightarrow> s | None \<Rightarrow> 0) / max_keyword
                         else 0);
             n = lists_with_nonzero_score semantic_dict keyword_dict idx
         in f = (sem_score + kw_score) * real n \<and> n \<in> {0, 1, 2}"
proof -
  have semd: "\<forall>(i, s) \<in> set (py_dict sem). 0 \<le> s"
    using assms(1) py_dict_subset [of sem] by blast
  have kwd: "\<forall>(i, s) \<in> set (py_dict kws). 0 \<le> s"
    using assms(2) py_dict_subset [of kws] by blast
  note cnt = combmnz_count_nonzero [OF semd kwd, of idx]
  have "lists_with_nonzero_score (py_dict sem) (py_dict kws) idx \<le> 2"
    using combmnz_count_le cnt by metis
  then have range: "lists_with_nonzero_score (py_dict sem) (py_dict kws) idx \<in> {0, 1, 2}"
    by auto
  have f: "f = (combmnz_sem_score (py_dict sem) idx
               + combmnz_kw_score (py_dict kws)
                   (if py_dict kws \<noteq> [] then py_max (map snd (py_dict kws)) else 1) idx)
             * real (lists_with_nonzero_score (py_dict sem) (py_dict kws) idx)"
    using fuse_combmnz_mem [OF assms(3)] unfolding cnt .
  from f range show ?thesis
    unfolding Let_def combmnz_sem_score_def combmnz_kw_score_def by (rule conjI)
qed

theorem combmnz_score_formula_witness:
  "(0, 18 / 5) \<in> set (fuse_combmnz sort [(0, 4 / 5)] [(0, 2), (1, 0)])
   \<and> (let semantic_dict = py_dict [(0 :: int, 4 / 5 :: real)];
           keyword_dict = py_dict [(0 :: int, 2 :: real), (1, 0)];
           max_keyword = (if keyword_dict \<noteq> [] then py_max (map snd keyword_dict) else 1);
           sem_score = (case dict_get semantic_dict 0 of Some s \<Rightarrow> s | None \<Rightarrow> 0);
           kw_score = (if max_keyword > 0
                       then (case dict_get keyword_dict 0 of Some s \<Rightarrow> s | None \<Rightarrow> 0) / max_keyword
                       else 0);
           n = lists_with_nonzero_score semantic_dict keyword_dict 0
       in 18 / 5 = (sem_score + kw_score) * real n \<and> n \<in> {0, 1, 2})"
proof -
  have h1: "\<forall>(i, s) \<in> set [(0 :: int, 4 / 5 :: real)]. 0 \<le> s" by simp
  have h2: "\<forall>(i, s) \<in> set [(0 :: int, 2 :: real), (1, 0)]. 0 \<le> s" by simp
  have h3: "(0, 18 / 5) \<in> set (fuse_combmnz sort [(0, 4 / 5)] [(0, 2), (1, 0)])"
    by (simp add: fuse_combmnz_def combmnz_scores_counts_def py_dict_def
          combmnz_sem_score_def combmnz_kw_score_def combmnz_count_def sorted_desc_def)
  from combmnz_score_formula [OF h1 h2 h3] h3 show ?thesis by blast
qed

text \<open>
  C7 as stated fails: item 1 is a keyword candidate with score 0 that the semantic list
  does not contain. Its entry in \<^verbatim>\<open>counts\<close> is 0, neither 1 nor 2.
\<close>

theorem combmnz_multiplier_counterexample:
  "combmnz_scores_counts sort [(0, 4 / 5)] [(0, 2), (1, 0)] = [(0, 9 / 5, 2), (1, 0, 0)]"
  by (simp add: combmnz_scores_counts_def py_dict_def combmnz_sem_score_def
        combmnz_kw_score_def combmnz_count_def)

section \<open>The filter loop of search\<close>



lemma loop_top_k_le_1:
  "top_k \<le> 1 \<Longrightarrow> search_filter_loop its F top_k fused [] = search_filter_loop its F 1 fused []"
  by (induction fused) (auto simp: Let_def split: sum.splits)

lemma search_unfold:
  "search it e q top_k f stk =
     (fst (search_fused it e q stk),
      case snd (search_fused it e q stk) of
        Inl err \<Rightarrow> Inl err
      | Inr fused \<Rightarrow> search_filter_loop (items e) f top_k fused [])"
  by (simp add: search_def split: prod.splits sum.splits)

section \<open>Claims about search\<close>

lemma loop_closed:
  "search_filter_loop its F top_k fused acc = Inr rs \<Longrightarrow>
     rs = acc @ map (candidate_result its)
                  (take (nat (max 1 (top_k - int (length acc))))
                     (filter (candidate_passes its F) fused))"
proof (induction its F top_k fused acc rule: search_filter_loop.induct)
  case (1 its filters top_k results)
  then show ?case by simp
next
  case (2 its filters top_k idx score rest results)
  from "2.prems" obtain it where it: "py_index its idx = Inr it"
    by (auto split: sum.splits)
  let ?r = "make_result it idx score"
  have cr: "candidate_result its (idx, score) = ?r"
    by (simp add: candidate_result_def it)
  have cp: "candidate_passes its filters (idx, score) = item_passes filters it"
    by (simp add: candidate_passes_def it)
  show ?case
  proof (cases "item_passes filters it")
    case False
    with "2.prems" it have "search_filter_loop its filters top_k rest results = Inr rs" by simp
    from "2.IH"(1) [OF it _ this] False show ?thesis by (simp add: cp)
  next
    case True
    show ?thesis
    proof (cases "int (length (results @ [?r])) \<ge> top_k")
      case stop: True
      with "2.prems" it True have rs: "rs = results @ [?r]" by (simp add: Let_def)
      from stop have "nat (max 1 (top_k - int (length results))) = 1" by simp
      then show ?thesis by (simp add: rs cp True cr)
    next
      case go: False
      with "2.prems" it True
      have run: "search_filter_loop its filters top_k rest (results @ [?r]) = Inr rs"
        by (simp add: Let_def)
      from go have n: "nat (max 1 (top_k - int (length results)))
                        = Suc (nat (max 1 (top_k - int (length (results @ [?r])))))"
        by simp
      from "2.IH"(2) [OF it _ refl go run] True
      have "rs = (results @ [?r]) @ map (candidate_result its)
                  (take (nat (max 1 (top_k - int (length (results @ [?r])))))
                     (filter (candidate_passes its filters) rest))" by simp
      then show ?thesis by (simp only: n) (simp add: cp True cr)
    qed
  qed
qed



lemma sr_score_candidate_result: "sr_score (candidate_result its c) = snd c"
  by (simp add: candidate_result_def make_result_def split: sum.splits)





text \<open>
  C3, as the code has it. An engine whose vector index or BM25 ranker is still unset
  --- the state \<^verbatim>\<open>__init__\<close> creates, with an empty item list --- never returns a result
  list from \<^verbatim>\<open>search\<close>. With the vector index unset and a working encoder the error is
  Python's \<^verbatim>\<open>AttributeError\<close>, raised after the query has been encoded and before either
  index is queried; the code has no error of its own for this case.
\<close>

theorem search_unindexed_fails:
  "(vector_index e = None \<or> bm25 e = None \<longrightarrow>
      (\<exists>err. snd (search it e q top_k f stk) = Inl err))
   \<and> (vector_index e = None \<longrightarrow> (\<forall>v. model e q = Inr v \<longrightarrow>
         search it e q top_k f stk = ([EncodeQuery], Inl AttributeError)))"
  by (auto simp: search_def search_fused_def semantic_search_def keyword_search_def
        split: sum.splits option.splits prod.splits)

theorem search_unindexed_fails_witness:
  "(vector_index (init example_encoder ''weighted'' (7 / 10) (3 / 10)) = None
      \<or> bm25 (init example_encoder ''weighted'' (7 / 10) (3 / 10)) = None)
   \<and> vector_index (init example_encoder ''weighted'' (7 / 10) (3 / 10)) = None
   \<and> model (init example_encoder ''weighted'' (7 / 10) (3 / 10)) ''pasta'' = Inr [1]
   \<and> (\<exists>err. snd (search sort (init example_encoder ''weighted'' (7 / 10) (3 / 10)) ''pasta'' 10 None 100)
               = Inl err)
   \<and> search sort (init example_encoder ''weighted'' (7 / 10) (3 / 10)) ''pasta'' 10 None 100
       = ([EncodeQuery], Inl AttributeError)"
proof -
  have h1: "vector_index (init example_encoder ''weighted'' (7 / 10) (3 / 10)) = None"
    by (simp add: init_def)
  have h2: "model (init example_encoder ''weighted'' (7 / 10) (3 / 10)) ''pasta'' = Inr [1]"
    by (simp add: init_def example_encoder_def)
  from search_unindexed_fails
         [where e = "init example_encoder ''weighted'' (7 / 10) (3 / 10)" and q = "''pasta''"
            and it = sort and top_k = 10 and f = None and stk = 100] h1 h2
  show ?thesis by blast
qed

text \<open>
  C3 as stated fails: the error of a search on a freshly created engine is
  \<^verbatim>\<open>AttributeError\<close>, the generic error of using \<^verbatim>\<open>None\<close> as an index.
\<close>

theorem not_indexed_counterexample:
  "search sort (init example_encoder ''weighted'' (7 / 10) (3 / 10)) ''pasta'' 10 None 100
     = ([EncodeQuery], Inl AttributeError)"
  by (simp add: search_def search_fused_def semantic_search_def init_def example_encoder_def)

text \<open>
  C4, as the code has it. On an indexed engine whose encoder and vector index answer,
  an unknown fusion strategy is rejected with \<^verbatim>\<open>ValueError\<close>, and only after the query has
  been encoded and both indexes have been queried. \<^verbatim>\<open>top_k\<close> is not validated: every
  \<open>top_k \<le> 1\<close>, negative ones included, behaves as \<open>top_k = 1\<close>.
\<close>

theorem invalid_parameters_not_rejected_early:
  "(vector_index e = Some ix \<and> bm25 e = Some sc \<and> model e q = Inr v \<and> ix v stk = Inr sem
      \<and> fusion_strategy e \<notin> {''weighted'', ''rrf'', ''combmnz''} \<longrightarrow>
      search it e q top_k f stk = ([EncodeQuery, VectorSearch, BM25Scores], Inl ValueError))
   \<and> (top_k \<le> 1 \<longrightarrow> search it e q top_k f stk = search it e q 1 f stk)"
proof (intro conjI impI)
  assume a: "vector_index e = Some ix \<and> bm25 e = Some sc \<and> model e q = Inr v \<and> ix v stk = Inr sem
      \<and> fusion_strategy e \<notin> {''weighted'', ''rrf'', ''combmnz''}"
  have sem: "semantic_search e q stk = ([EncodeQuery, VectorSearch], Inr sem)"
    using a by (simp add: semantic_search_def)
  obtain kw where kw: "keyword_search e q stk = ([BM25Scores], Inr kw)"
    using a by (simp add: keyword_search_def Let_def)
  from a have "fusion_strategy e \<noteq> ''weighted''" "fusion_strategy e \<noteq> ''rrf''"
    "fusion_strategy e \<noteq> ''combmnz''" by blast+
  then have fuse: "search_fuse it e sem kw = Inl ValueError"
    unfolding search_fuse_def by (simp only: if_False)
  have "search_fused it e q stk = ([EncodeQuery, VectorSearch, BM25Scores], Inl ValueError)"
    unfolding search_fused_def by (simp only: sem kw fuse prod.case sum.case append.simps)
  then show "search it e q top_k f stk = ([EncodeQuery, VectorSearch, BM25Scores], Inl ValueError)"
    unfolding search_def by (simp only: prod.case sum.case)
next
  assume "top_k \<le> 1"
  then have "search_filter_loop (items e) f top_k fused [] = search_filter_loop (items e) f 1 fused []"
    for fused by (rule loop_top_k_le_1)
  then show "search it e q top_k f stk = search it e q 1 f stk"
    by (simp only: search_unfold)
qed

theorem invalid_parameters_not_rejected_early_witness:
  "vector_index (example_engine ''bogus'') = Some example_vector_search
   \<and> bm25 (example_engine ''bogus'')
       = Some (bm25_get_scores example_idf (3 / 2) (3 / 4) [[''cooking'', ''pasta'']])
   \<and> model (example_engine ''bogus'') ''pasta'' = Inr [1]
   \<and> example_vector_search [1] 100 = Inr [(0, 1 / 2)]
   \<and> fusion_strategy (example_engine ''bogus'') \<notin> {''weighted'', ''rrf'', ''combmnz''}
   \<and> (-1 :: int) \<le> 1
   \<and> search sort (example_engine ''bogus'') ''pasta'' (-1) None 100
       = ([EncodeQuery, VectorSearch, BM25Scores], Inl ValueError)
   \<and> search sort (example_engine ''bogus'') ''pasta'' (-1) None 100
       = search sort (example_engine ''bogus'') ''pasta'' 1 None 100"
proof -
  have h1: "vector_index (example_engine ''bogus'') = Some example_vector_search"
    by (simp add: example_engine_def)
  have h2: "bm25 (example_engine ''bogus'')
       = Some (bm25_get_scores example_idf (3 / 2) (3 / 4) [[''cooking'', ''pasta'']])"
    by (simp add: example_engine_def)
  have h3: "model (example_engine ''bogus'') ''pasta'' = Inr [1]"
    by (simp add: example_engine_def init_def example_encoder_def)
  have h4: "example_vector_search [1] 100 = Inr [(0, 1 / 2)]"
    by (simp add: example_vector_search_def)
  have h5: "fusion_strategy (example_engine ''bogus'') \<notin> {''weighted'', ''rrf'', ''combmnz''}"
    by (simp add: example_engine_def init_def)
  have h6: "(-1 :: int) \<le> 1" by simp
  from invalid_parameters_not_rejected_early
         [where e = "example_engine ''bogus''" and q = "''pasta''" and it = sort
            and top_k = "-1" and f = None and stk = 100 and ix = example_vector_search
            and sc = "bm25_get_scores example_idf (3 / 2) (3 / 4) [[''cooking'', ''pasta'']]"
            and v = "[1]" and sem = "[(0, 1 / 2)]"]
       h1 h2 h3 h4 h5 h6
  show ?thesis by blast
qed

text \<open>
  C4 as stated fails twice on the example engine: with an unknown strategy the error
  comes after the vector search and the BM25 scoring have run, and a negative \<^verbatim>\<open>top_k\<close>
  is answered with a result instead of an error.
\<close>

theorem fail_fast_counterexample:
  "search sort (example_engine ''bogus'') ''pasta'' 10 None 100
     = ([EncodeQuery, VectorSearch, BM25Scores], Inl ValueError)
   \<and> search sort (example_engine ''weighted'') ''pasta'' (-1) None 100
     = ([EncodeQuery, VectorSearch, BM25Scores],
        Inr [make_result [(''text'', PStr ''cooking pasta''), (''category'', PStr ''food'')] 0 (13 / 20)])"
  by (simp add: search_def search_fused_def semantic_search_def keyword_search_def
        search_fuse_def example_engine_def init_def example_encoder_def
        example_vector_search_def example_idf_def bm25_get_scores_def tokenize_def
        lower_char_def is_word_char_def argsort_def py_take_def fuse_weighted_def
        weighted_semantic_loop_def weighted_keyword_loop_def sorted_desc_def
        py_index_def item_passes_def)

section \<open>Claims about the keyword search\<close>

lemma sum_list_all_zero: "(\<And>x. x \<in> set xs \<Longrightarrow> f x = (0 :: real)) \<Longrightarrow> sum_list (map f xs) = 0"
  by (induction xs) auto

lemma bm25_get_scores_length: "length (bm25_get_scores idf k1 b corpus query) = length corpus"
  by (simp add: bm25_get_scores_def Let_def)

lemma bm25_no_overlap:
  assumes "i < length corpus" and "set query \<inter> set (corpus ! i) = {}"
  shows "bm25_get_scores idf k1 b corpus query ! i = 0"
proof -
  have "count_list (corpus ! i) t = 0" if "t \<in> set query" for t
    using that assms(2) by (auto simp: count_list_0_iff)
  then show ?thesis
    using assms(1) by (simp add: bm25_get_scores_def Let_def sum_list_all_zero)
qed

lemma argsort_set: "set (argsort scores) = {0..<length scores}"
  by (simp add: argsort_def)

lemma argsort_distinct: "distinct (argsort scores)"
  by (simp add: argsort_def)

lemma argsort_length: "length (argsort scores) = length scores"
  by (simp add: argsort_def)

lemma keyword_search_result:
  assumes "bm25 e = Some get_scores"
  shows "keyword_search e q top_k =
           ([BM25Scores],
            Inr (map (\<lambda>idx. (int idx, get_scores (tokenize q) ! idx))
                   (py_take top_k (rev (argsort (get_scores (tokenize q)))))))"
  using assms by (simp add: keyword_search_def Let_def)

text \<open>
  C2, as the code has it. On a built index over \<open>N\<close> documents the keyword search does
  not raise and returns exactly \<open>min(top_k, N)\<close> candidates for a non-negative \<open>top_k\<close>,
  each a distinct document position with that document's score, whatever the query.
  A document that shares no token with the query has score 0 and is returned like any
  other: with \<open>top_k \<ge> N\<close> every document is in the result. An empty query gives such
  a list of zero scores, not the empty list.
\<close>

theorem keyword_search_returns_zero_overlap_documents:
  assumes "bm25 e = Some (bm25_get_scores idf k1 b corpus)" and "0 \<le> top_k"
  shows "\<exists>r. keyword_search e q top_k = ([BM25Scores], Inr r)
           \<and> length r = min (nat top_k) (length corpus)
           \<and> distinct (map fst r)
           \<and> (\<forall>(i, s) \<in> set r. 0 \<le> i \<and> nat i < length corpus
                  \<and> s = bm25_get_scores idf k1 b corpus (tokenize q) ! nat i
                  \<and> (set (tokenize q) \<inter> set (corpus ! nat i) = {} \<longrightarrow> s = 0))
           \<and> (int (length corpus) \<le> top_k \<longrightarrow> fst ` set r = int ` {0..<length corpus})"
proof -
  let ?scores = "bm25_get_scores idf k1 b corpus (tokenize q)"
  let ?top = "take (nat top_k) (rev (argsort ?scores))"
  let ?r = "map (\<lambda>idx. (int idx, ?scores ! idx)) ?top"
  have len: "length ?scores = length corpus" by (rule bm25_get_scores_length)
  have res: "keyword_search e q top_k = ([BM25Scores], Inr ?r)"
    using keyword_search_result [OF assms(1)] assms(2) by (simp add: py_take_def)
  have l: "length ?r = min (nat top_k) (length corpus)"
    by (simp add: argsort_length len min.commute)
  have "distinct ?top" by (simp add: argsort_distinct)
  then have d: "distinct (map fst ?r)"
    by (simp add: comp_def distinct_map inj_on_def)
  have top_sub: "set ?top \<subseteq> {0..<length corpus}"
    using set_take_subset [of "nat top_k" "rev (argsort ?scores)"]
    by (simp add: argsort_set len)
  have m: "\<forall>(i, s) \<in> set ?r. 0 \<le> i \<and> nat i < length corpus
                  \<and> s = ?scores ! nat i
                  \<and> (set (tokenize q) \<inter> set (corpus ! nat i) = {} \<longrightarrow> s = 0)"
    using top_sub by (auto simp: bm25_no_overlap)
  have a: "int (length corpus) \<le> top_k \<longrightarrow> fst ` set ?r = int ` {0..<length corpus}"
  proof
    assume "int (length corpus) \<le> top_k"
    then have "?top = rev (argsort ?scores)" by (simp add: argsort_length len)
    then have "set ?top = {0..<length corpus}" by (simp add: argsort_set len)
    moreover have "fst ` set ?r = int ` set ?top" by (simp add: image_image)
    ultimately show "fst ` set ?r = int ` {0..<length corpus}" by simp
  qed
  from res l d m a show ?thesis by blast
qed

theorem keyword_search_returns_zero_overlap_documents_witness:
  "bm25 (example_engine ''weighted'')
     = Some (bm25_get_scores example_idf (3 / 2) (3 / 4) [[''cooking'', ''pasta'']])
   \<and> (0 :: int) \<le> 100
   \<and> (\<exists>r. keyword_search (example_engine ''weighted'') ''neural'' 100 = ([BM25Scores], Inr r)
           \<and> length r = min (nat 100) (length [[''cooking'', ''pasta'']])
           \<and> distinct (map fst r)
           \<and> (\<forall>(i, s) \<in> set r. 0 \<le> i \<and> nat i < length [[''cooking'', ''pasta'']]
                  \<and> s = bm25_get_scores example_idf (3 / 2) (3 / 4) [[''cooking'', ''pasta'']]
                          (tokenize ''neural'') ! nat i
                  \<and> (set (tokenize ''neural'') \<inter> set ([[''cooking'', ''pasta'']] ! nat i) = {}
                        \<longrightarrow> s = 0))
           \<and> (int (length [[''cooking'', ''pasta'']]) \<le> 100 \<longrightarrow>
                 fst ` set r = int ` {0..<length [[''cooking'', ''pasta'']]}))"
proof -
  have h1: "bm25 (example_engine ''weighted'')
     = Some (bm25_get_scores example_idf (3 / 2) (3 / 4) [[''cooking'', ''pasta'']])"
    by (simp add: example_engine_def)
  have h2: "(0 :: int) \<le> 100" by simp
  from keyword_search_returns_zero_overlap_documents [OF h1 h2, of "''neural''"] h1 h2
  show ?thesis by blast
qed

text \<open>
  C2 as stated fails on the example engine: its one document shares no token with the
  query \<^verbatim>\<open>neural\<close> and is returned with score 0, and the empty query returns the same
  one-element list.
\<close>

theorem sparse_result_counterexample:
  "keyword_search (example_engine ''weighted'') ''neural'' 100 = ([BM25Scores], Inr [(0, 0)])
   \<and> keyword_search (example_engine ''weighted'') [] 100 = ([BM25Scores], Inr [(0, 0)])"
  by (simp add: keyword_search_def example_engine_def init_def example_idf_def
        bm25_get_scores_def tokenize_def lower_char_def is_word_char_def argsort_def py_take_def)

section \<open>Claims about the benchmarker\<close>

lemma measure_combination_fields:
  "measure_combination env bm do_search algo params size_mb build_time = Inr r \<Longrightarrow>
     algorithm r = algo \<and> parameters r = params"
  by (auto simp: measure_combination_def split: sum.splits prod.splits)

lemma ivf_nprobe_loop_parameters:
  "ivf_nprobe_loop env bm index build_time nlist nprobes results = Inr rs \<Longrightarrow>
     map parameters rs
       = map parameters results @ map (\<lambda>p. [(''nlist'', nlist), (''nprobe'', p)]) nprobes"
proof (induction nprobes arbitrary: results)
  case Nil
  then show ?case by simp
next
  case (Cons p rest)
  from Cons.prems obtain r where
    r: "measure_combination env bm (\<lambda>query. ivf_search env index p query 100) ''IVF''
          [(''nlist'', nlist), (''nprobe'', p)] (database_mb bm) build_time = Inr r"
    and run: "ivf_nprobe_loop env bm index build_time nlist rest (results @ [r]) = Inr rs"
    by (auto split: sum.splits)
  from Cons.IH [OF run] measure_combination_fields [OF r] show ?case by simp
qed

lemma ivf_nlist_loop_parameters:
  "ivf_nlist_loop env bm nlists nprobes results = Inr rs \<Longrightarrow>
     map parameters rs
       = map parameters results
         @ concat (map (\<lambda>n. map (\<lambda>p. [(''nlist'', n), (''nprobe'', p)]) nprobes) nlists)"
proof (induction nlists arbitrary: results)
  case Nil
  then show ?case by simp
next
  case (Cons n rest)
  from Cons.prems obtain index build_time mid where
    "ivf_build env (database bm) n = Inr (index, build_time)"
    and inner: "ivf_nprobe_loop env bm index build_time n nprobes results = Inr mid"
    and run: "ivf_nlist_loop env bm rest nprobes mid = Inr rs"
    by (auto split: sum.splits prod.splits)
  from Cons.IH [OF run] ivf_nprobe_loop_parameters [OF inner] show ?case by simp
qed

lemma ivf_nprobe_loop_fails:
  assumes "p \<in> set nprobes"
    and "measure_combination env bm (\<lambda>query. ivf_search env index p query 100) ''IVF''
           [(''nlist'', nlist), (''nprobe'', p)] (database_mb bm) build_time = Inl err"
  shows "\<exists>e'. ivf_nprobe_loop env bm index build_time nlist nprobes results = Inl e'"
  using assms(1)
proof (induction nprobes arbitrary: results)
  case Nil
  then show ?case by simp
next
  case (Cons p' rest)
  show ?case
  proof (cases "measure_combination env bm (\<lambda>query. ivf_search env index p' query 100) ''IVF''
           [(''nlist'', nlist), (''nprobe'', p')] (database_mb bm) build_time")
    case (Inl e)
    then show ?thesis by simp
  next
    case (Inr r)
    with assms(2) have "p' \<noteq> p" by auto
    with Cons.prems have "p \<in> set rest" by simp
    from Cons.IH [OF this] Inr show ?thesis by simp
  qed
qed

lemma ivf_nlist_loop_fails:
  assumes "n \<in> set nlists" and "p \<in> set nprobes"
    and "ivf_build env (database bm) n = Inr (index, build_time)"
    and "measure_combination env bm (\<lambda>query. ivf_search env index p query 100) ''IVF''
           [(''nlist'', n), (''nprobe'', p)] (database_mb bm) build_time = Inl err"
  shows "\<exists>e'. ivf_nlist_loop env bm nlists nprobes results = Inl e'"
  using assms(1)
proof (induction nlists arbitrary: results)
  case Nil
  then show ?case by simp
next
  case (Cons n' rest)
  show ?case
  proof (cases "ivf_build env (database bm) n'")
    case (Inl e)
    then show ?thesis by simp
  next
    case (Inr built)
    obtain index' build_time' where built: "built = (index', build_time')" by (cases built)
    show ?thesis
    proof (cases "ivf_nprobe_loop env bm index' build_time' n' nprobes results")
      case (Inl e)
      then show ?thesis by (simp add: Inr built)
    next
      case inner: (Inr mid)
      have "n' \<noteq> n"
      proof
        assume "n' = n"
        with Inr built assms(3) have "index' = index" "build_time' = build_time" by auto
        with ivf_nprobe_loop_fails [OF assms(2,4), of results] inner \<open>n' = n\<close>
        show False by auto
      qed
      with Cons.prems have "n \<in> set rest" by simp
      from Cons.IH [OF this] inner show ?thesis by (simp add: Inr built)
    qed
  qed
qed

text \<open>
  C5, as the code has it. \<^verbatim>\<open>benchmark_ivf\<close> is all or nothing. When it returns, the
  results are one per parameter combination in grid order. When any combination of the
  grid fails --- its index was built and measuring it raised --- the function returns no
  results at all: the exception ends the sweep, and the results of the combinations
  completed before it are lost. \<^verbatim>\<open>run_all_benchmarks\<close> passes such a failure on in the
  same way.
\<close>

theorem benchmark_ivf_all_or_nothing:
  "(\<forall>rs. benchmark_ivf env bm nlists nprobes = Inr rs \<longrightarrow>
        map parameters rs
          = concat (map (\<lambda>n. map (\<lambda>p. [(''nlist'', n), (''nprobe'', p)]) nprobes) nlists))
   \<and> (\<forall>n p index build_time err.
         n \<in> set nlists \<and> p \<in> set nprobes
         \<and> ivf_build env (database bm) n = Inr (index, build_time)
         \<and> measure_combination env bm (\<lambda>query. ivf_search env index p query 100) ''IVF''
               [(''nlist'', n), (''nprobe'', p)] (database_mb bm) build_time = Inl err
         \<longrightarrow> (\<exists>e'. benchmark_ivf env bm nlists nprobes = Inl e'))
   \<and> (\<forall>err. benchmark_ivf env bm [100, 1000] [1, 10, 50] = Inl err \<longrightarrow>
         (\<exists>e'. run_all_benchmarks env bm = Inl e'))"
proof (intro conjI allI impI)
  fix rs assume "benchmark_ivf env bm nlists nprobes = Inr rs"
  then show "map parameters rs
          = concat (map (\<lambda>n. map (\<lambda>p. [(''nlist'', n), (''nprobe'', p)]) nprobes) nlists)"
    using ivf_nlist_loop_parameters [of env bm nlists nprobes "[]" rs]
    by (simp add: benchmark_ivf_def)
next
  fix n p index build_time err
  assume a: "n \<in> set nlists \<and> p \<in> set nprobes
         \<and> ivf_build env (database bm) n = Inr (index, build_time)
         \<and> measure_combination env bm (\<lambda>query. ivf_search env index p query 100) ''IVF''
               [(''nlist'', n), (''nprobe'', p)] (database_mb bm) build_time = Inl err"
  then have "\<exists>e'. ivf_nlist_loop env bm nlists nprobes [] = Inl e'"
    by (intro ivf_nlist_loop_fails [of n nlists p nprobes env bm index build_time err]) auto
  then show "\<exists>e'. benchmark_ivf env bm nlists nprobes = Inl e'"
    by (simp add: benchmark_ivf_def)
next
  fix err assume "benchmark_ivf env bm [100, 1000] [1, 10, 50] = Inl err"
  then show "\<exists>e'. run_all_benchmarks env bm = Inl e'"
    by (simp add: run_all_benchmarks_def split: sum.splits)
qed

lemma example_measure_fails:
  "measure_combination example_env example_benchmarker
     (\<lambda>query. ivf_search example_env () 0 query 100) ''IVF''
     [(''nlist'', 100), (''nprobe'', 0)] (database_mb example_benchmarker) 0
   = Inl (LibraryError ''nprobe > 0'')"
  by (simp add: measure_combination_def example_env_def example_benchmarker_def)

lemma example_sweep_returns:
  "\<exists>rs. benchmark_ivf example_env example_benchmarker [100] [1, 10] = Inr rs"
  by (simp add: benchmark_ivf_def measure_combination_def example_env_def
        example_benchmarker_def compute_recall_def py_take_def np_mean_def)

theorem benchmark_ivf_all_or_nothing_witness:
  "(\<exists>rs. benchmark_ivf example_env example_benchmarker [100] [1, 10] = Inr rs
        \<and> map parameters rs
            = concat (map (\<lambda>n. map (\<lambda>p. [(''nlist'', n), (''nprobe'', p)]) [1, 10]) [100]))
   \<and> (100 :: int) \<in> set [100] \<and> (0 :: int) \<in> set [1, 10, 0, 50]
   \<and> ivf_build example_env (database example_benchmarker) 100 = Inr ((), 0)
   \<and> measure_combination example_env example_benchmarker
        (\<lambda>query. ivf_search example_env () 0 query 100) ''IVF''
        [(''nlist'', 100), (''nprobe'', 0)] (database_mb example_benchmarker) 0
      = Inl (LibraryError ''nprobe > 0'')
   \<and> (\<exists>e'. benchmark_ivf example_env example_benchmarker [100] [1, 10, 0, 50] = Inl e')"
proof -
  obtain rs where rs: "benchmark_ivf example_env example_benchmarker [100] [1, 10] = Inr rs"
    using example_sweep_returns by blast
  from benchmark_ivf_all_or_nothing
         [where env = example_env and bm = example_benchmarker and nlists = "[100]"
            and nprobes = "[1, 10]"] rs
  have first: "map parameters rs
            = concat (map (\<lambda>n. map (\<lambda>p. [(''nlist'', n), (''nprobe'', p)]) [1, 10]) [100])"
    by blast
  have h1: "(100 :: int) \<in> set [100]" by simp
  have h2: "(0 :: int) \<in> set [1, 10, 0, 50]" by simp
  have h3: "ivf_build example_env (database example_benchmarker) 100 = Inr ((), 0)"
    by (simp add: example_env_def)
  note h4 = example_measure_fails
  from benchmark_ivf_all_or_nothing
         [where env = example_env and bm = example_benchmarker and nlists = "[100]"
            and nprobes = "[1, 10, 0, 50]"] h1 h2 h3 h4
  have second: "\<exists>e'. benchmark_ivf example_env example_benchmarker [100] [1, 10, 0, 50] = Inl e'"
    by blast
  from rs first h1 h2 h3 h4 second show ?thesis by blast
qed

text \<open>
  C5 as stated fails: in a grid of four combinations whose third has \<^verbatim>\<open>nprobe = 0\<close>, the
  sweep returns the library's error and none of the two results already computed.
\<close>

theorem partial_failure_counterexample:
  "benchmark_ivf example_env example_benchmarker [100] [1, 10, 0, 50]
     = Inl (LibraryError ''nprobe > 0'')"
  by (simp add: benchmark_ivf_def measure_combination_def example_env_def
        example_benchmarker_def compute_recall_def py_take_def np_mean_def)

section \<open>Claims about recall\<close>

lemma recall_rows_closed:
  assumes "\<forall>(pred, truth) \<in> set rows. py_take k truth \<noteq> []"
  shows "recall_rows k rows recalls = Inr (recalls @ map (row_recall k) rows)"
  using assms
proof (induction rows arbitrary: recalls)
  case Nil
  then show ?case by simp
next
  case (Cons row rows)
  obtain pred truth where row: "row = (pred, truth)" by (cases row)
  from Cons.prems have ne: "py_take k truth \<noteq> []" by (simp add: row)
  then have "card (set (py_take k truth)) \<noteq> 0" by simp
  moreover from Cons.prems have "\<forall>(pred, truth) \<in> set rows. py_take k truth \<noteq> []" by simp
  ultimately show ?case
    using Cons.IH by (simp add: row Let_def row_recall_def)
qed

lemma row_recall_self:
  "py_take k truth \<noteq> [] \<Longrightarrow> row_recall k (truth, truth) = 1"
  by (simp add: row_recall_def)

lemma card_first_k:
  assumes "0 \<le> k" "nat k \<le> length truth" "distinct (take (nat k) truth)"
  shows "card (set (py_take k truth)) = nat k"
  using assms by (simp add: py_take_def distinct_card)

lemma benchmark_exact_recall:
  "benchmark_exact env bm = Inr r \<Longrightarrow> recall_at_10 r = Some 1 \<and> recall_at_100 r = Some 1"
  by (auto simp: benchmark_exact_def split: sum.splits prod.splits)

lemma compute_recall_closed:
  assumes "\<forall>(pred, truth) \<in> set (zip predicted truth). py_take k truth \<noteq> []"
  shows "compute_recall predicted truth k
           = Inr (np_mean (map (row_recall k) (zip predicted truth)))"
  by (simp add: compute_recall_def recall_rows_closed [OF assms])

lemma np_mean_ones: "xs \<noteq> [] \<Longrightarrow> np_mean (map (\<lambda>_. 1) xs) = Some 1"
  by (simp add: np_mean_def sum_list_triv)

text \<open>
  C6, as the code has it. Where every paired ground-truth row has an entry among its
  first \<open>K\<close>, the reported recall is the mean, over the rows paired by position, of
  \<open>|pred\<^sub>K \<inter> truth\<^sub>K| / |truth\<^sub>K|\<close>, the sets being those of the first \<open>K\<close> entries. The
  divisor is the size of the ground-truth set; it is \<open>K\<close> when the ground-truth row has
  at least \<open>K\<close> entries and the first \<open>K\<close> are distinct. A ground truth measured against
  itself has recall 1, and \<^verbatim>\<open>benchmark_exact\<close> reports recall 1 at 10 and at 100.
\<close>

theorem recall_is_mean_over_truth_set:
  "((\<forall>(pred, truth) \<in> set (zip predicted truth). py_take k truth \<noteq> []) \<longrightarrow>
      compute_recall predicted truth k
        = Inr (np_mean (map (row_recall k) (zip predicted truth))))
   \<and> (0 < k \<and> nat k \<le> length t \<and> distinct (take (nat k) t) \<longrightarrow>
        row_recall k (p, t)
          = real (card (set (py_take k p) \<inter> set (py_take k t))) / real_of_int k)
   \<and> (truth \<noteq> [] \<and> (\<forall>t \<in> set truth. py_take k t \<noteq> []) \<longrightarrow>
        compute_recall truth truth k = Inr (Some 1))
   \<and> (\<forall>r. benchmark_exact env bm = Inr r \<longrightarrow>
        recall_at_10 r = Some 1 \<and> recall_at_100 r = Some 1)"
proof (intro conjI impI allI)
  assume "\<forall>(pred, truth) \<in> set (zip predicted truth). py_take k truth \<noteq> []"
  then show "compute_recall predicted truth k
        = Inr (np_mean (map (row_recall k) (zip predicted truth)))"
    by (rule compute_recall_closed)
next
  assume a: "0 < k \<and> nat k \<le> length t \<and> distinct (take (nat k) t)"
  then have "card (set (py_take k t)) = nat k"
    by (intro card_first_k) auto
  with a show "row_recall k (p, t)
          = real (card (set (py_take k p) \<inter> set (py_take k t))) / real_of_int k"
    by (simp add: row_recall_def)
next
  assume a: "truth \<noteq> [] \<and> (\<forall>t \<in> set truth. py_take k t \<noteq> [])"
  have z: "zip truth truth = map (\<lambda>t. (t, t)) truth"
    by (induction truth) auto
  from a have ne: "\<forall>(pred, t) \<in> set (zip truth truth). py_take k t \<noteq> []"
    by (auto simp: z)
  from a have "map (row_recall k) (zip truth truth) = map (\<lambda>_. 1) truth"
    by (simp add: z row_recall_self)
  with compute_recall_closed [OF ne] a show "compute_recall truth truth k = Inr (Some 1)"
    by (simp add: np_mean_ones)
next
  fix r assume "benchmark_exact env bm = Inr r"
  then show "recall_at_10 r = Some 1" "recall_at_100 r = Some 1"
    using benchmark_exact_recall by blast+
qed

lemma example_exact_returns: "\<exists>r. benchmark_exact example_env example_benchmarker = Inr r"
  by (simp add: benchmark_exact_def example_env_def example_benchmarker_def)

theorem recall_is_mean_over_truth_set_witness:
  "compute_recall [[0, 2]] [[0, 1]] 2
       = Inr (np_mean (map (row_recall 2) (zip [[0, 2]] [[0, 1]])))
   \<and> (0 :: int) < 2 \<and> nat 2 \<le> length [0 :: int, 1] \<and> distinct (take (nat 2) [0 :: int, 1])
   \<and> row_recall 2 ([0, 2], [0, 1])
       = real (card (set (py_take 2 [0 :: int, 2]) \<inter> set (py_take 2 [0, 1]))) / real_of_int 2
   \<and> [[0 :: int, 1]] \<noteq> []
   \<and> compute_recall [[0, 1]] [[0, 1]] 2 = Inr (Some 1)
   \<and> (\<exists>r. benchmark_exact example_env example_benchmarker = Inr r
          \<and> recall_at_10 r = Some 1 \<and> recall_at_100 r = Some 1)"
proof -
  have h1: "\<forall>(pred, truth) \<in> set (zip [[0, 2]] [[0 :: int, 1]]). py_take 2 truth \<noteq> []"
    by (simp add: py_take_def)
  have h2: "(0 :: int) < 2 \<and> nat 2 \<le> length [0 :: int, 1] \<and> distinct (take (nat 2) [0 :: int, 1])"
    by simp
  have h3: "[[0 :: int, 1]] \<noteq> [] \<and> (\<forall>t \<in> set [[0 :: int, 1]]. py_take 2 t \<noteq> [])"
    by (simp add: py_take_def)
  obtain r where h4: "benchmark_exact example_env example_benchmarker = Inr r"
    using example_exact_returns by blast
  note t = recall_is_mean_over_truth_set
             [where predicted = "[[0, 2]]" and truth = "[[0, 1]]" and k = 2
                and p = "[0, 2]" and t = "[0, 1]" and env = example_env
                and bm = example_benchmarker]
  from t h1 have c1: "compute_recall [[0, 2]] [[0, 1]] 2
       = Inr (np_mean (map (row_recall 2) (zip [[0, 2]] [[0, 1]])))" by blast
  from t h2 have c2: "row_recall 2 ([0, 2], [0, 1])
       = real (card (set (py_take 2 [0 :: int, 2]) \<inter> set (py_take 2 [0, 1]))) / real_of_int 2"
    by blast
  from recall_is_mean_over_truth_set [where truth = "[[0, 1]]" and k = 2] h3
  have c3: "compute_recall [[0, 1]] [[0, 1]] 2 = Inr (Some 1)" by blast
  from t h4 have c4: "recall_at_10 r = Some 1 \<and> recall_at_100 r = Some 1" by blast
  from c1 h2 c2 h3 c3 h4 c4 show ?thesis by blast
qed

text \<open>
  C6 as stated fails where the ground-truth row has fewer than \<open>K\<close> distinct entries:
  with one true neighbour and \<open>K = 2\<close> the code reports \<open>1/1\<close>, the formula of the
  claim gives \<open>1/2\<close>.
\<close>

theorem recall_divisor_counterexample:
  "compute_recall [[0, 1]] [[0]] 2 = Inr (Some 1)
   \<and> real (card (set (py_take 2 [0 :: int, 1]) \<inter> set (py_take 2 [0]))) / 2 = 1 / 2"
  by (simp add: compute_recall_def py_take_def np_mean_def)

section \<open>Claims about the reciprocal rank scores\<close>

lemma py_take_distinct: "distinct xs \<Longrightarrow> distinct (py_take k xs)"
  by (simp add: py_take_def)

lemma keyword_search_distinct:
  assumes "keyword_search e q k = (ev, Inr r)"
  shows "distinct (map fst r)"
proof (cases "bm25 e")
  case None
  with assms show ?thesis by (simp add: keyword_search_def)
next
  case (Some get_scores)
  let ?top = "py_take k (rev (argsort (get_scores (tokenize q))))"
  from assms keyword_search_result [OF Some, of q k]
  have r: "r = map (\<lambda>idx. (int idx, get_scores (tokenize q) ! idx)) ?top" by simp
  have "distinct ?top" by (intro py_take_distinct) (simp add: argsort_distinct)
  then show ?thesis by (simp add: r comp_def distinct_map inj_on_def)
qed

lemma search_fused_rrf:
  assumes "fusion_strategy e = ''rrf''" and "snd (search_fused it e q stk) = Inr fused"
  shows "\<exists>sem kws. distinct (map fst kws) \<and> fuse_rrf 60 sem kws = Inr fused"
proof -
  from assms(2) obtain ev1 sem where sem: "semantic_search e q stk = (ev1, Inr sem)"
    by (auto simp: search_fused_def split: prod.splits sum.splits)
  from assms(2) sem obtain ev2 kws where kws: "keyword_search e q stk = (ev2, Inr kws)"
    by (auto simp: search_fused_def split: prod.splits sum.splits)
  from assms sem kws have "fuse_rrf 60 sem kws = Inr fused"
    by (simp add: search_fused_def search_fuse_def)
  with keyword_search_distinct [OF kws] show ?thesis by blast
qed

lemma rrf_60_bounds:
  assumes "distinct (map fst kws)"
  obtains out where "fuse_rrf 60 sem kws = Inr out"
    and "\<forall>(i, s) \<in> set out. 0 < s \<and> s \<le> 1 / (60 + 1) + 1 / (60 + 1)"
proof -
  have k: "(0::int) \<le> 60" by simp
  obtain d1 d2 where d: "rrf_semantic_loop 60 1 sem [] = Inr d1"
    "rrf_keyword_loop 60 1 kws d1 = Inr d2" "fuse_rrf 60 sem kws = Inr (sorted_desc d2)"
    using fuse_rrf_total [OF k, of sem kws] by blast
  have one: "(1::int) \<le> 1" by simp
  have "\<forall>(i, v) \<in> set ([] :: score_dict). 0 < v \<and> v \<le> 1 / real_of_int (60 + 1)" by simp
  from rrf_semantic_loop_bound [OF d(1) k one this]
  have b1: "\<forall>(i, v) \<in> set d1. 0 < v \<and> v \<le> 1 / real_of_int (60 + 1)" .
  have inv: "\<forall>(i, v) \<in> set d1. 0 < v \<and> v \<le> 2 / real_of_int (60 + 1)
            \<and> (i \<in> fst ` set kws \<longrightarrow> v \<le> 1 / real_of_int (60 + 1))"
    using b1 by fastforce
  from rrf_keyword_loop_bound [OF d(2) k one assms inv]
  have "\<forall>(i, v) \<in> set d2. 0 < v \<and> v \<le> 2 / real_of_int (60 + 1)" .
  then have "\<forall>(i, s) \<in> set (sorted_desc d2). 0 < s \<and> s \<le> 1 / (60 + 1) + 1 / (60 + 1)"
    by (simp add: sorted_desc_set)
  with d(3) that show thesis by blast
qed

lemma search_scores_from_fused:
  assumes "snd (search it e q top_k f stk) = Inr rs" and "r \<in> set rs"
  shows "\<exists>fused c. snd (search_fused it e q stk) = Inr fused \<and> c \<in> set fused
           \<and> sr_score r = snd c"
proof -
  from assms(1) obtain fused where fused: "snd (search_fused it e q stk) = Inr fused"
    and run: "search_filter_loop (items e) f top_k fused [] = Inr rs"
    by (auto simp: search_unfold split: sum.splits)
  from loop_closed [OF run] assms(2) obtain c where
    c: "c \<in> set (take (nat (max 1 top_k)) (filter (candidate_passes (items e) f) fused))"
    and r: "r = candidate_result (items e) c" by auto
  from c have "c \<in> set (filter (candidate_passes (items e) f) fused)"
    by (rule in_set_takeD)
  then have mem: "c \<in> set fused" by simp
  have "sr_score r = snd c" by (simp only: r sr_score_candidate_result)
  with fused mem show ?thesis by blast
qed

text \<open>
  C8. \<^verbatim>\<open>search\<close> calls \<^verbatim>\<open>_fuse_rrf\<close> with its default \<open>k = 60\<close>, and the candidate list of
  the keyword search names every document at most once. For such a keyword list and
  any semantic list, RRF returns and every fused score lies in
  \<open>(0, 1/(k+1) + 1/(k+1)]\<close>; so does every fused score of an engine with the RRF
  strategy, and every score of a result that its search returns.
\<close>

theorem rrf_score_bounds:
  "(distinct (map fst kws) \<longrightarrow>
      (\<exists>out. fuse_rrf 60 sem kws = Inr out
         \<and> (\<forall>(i, s) \<in> set out. 0 < s \<and> s \<le> 1 / (60 + 1) + 1 / (60 + 1))))
   \<and> (fusion_strategy e = ''rrf'' \<and> snd (search_fused it e q stk) = Inr fused \<longrightarrow>
        (\<forall>(i, s) \<in> set fused. 0 < s \<and> s \<le> 1 / (60 + 1) + 1 / (60 + 1)))
   \<and> (fusion_strategy e = ''rrf'' \<and> snd (search it e q top_k f stk) = Inr rs \<longrightarrow>
        (\<forall>r \<in> set rs. 0 < sr_score r \<and> sr_score r \<le> 1 / (60 + 1) + 1 / (60 + 1)))"
proof -
  have fused_bounds: "\<forall>(i, s) \<in> set fu. 0 < s \<and> s \<le> 1 / (60 + 1) + 1 / (60 + 1)"
    if "fusion_strategy e = ''rrf''" "snd (search_fused it e q stk) = Inr fu" for fu
  proof -
    from that obtain sem' kws' where s: "distinct (map fst kws')" "fuse_rrf 60 sem' kws' = Inr fu"
      using search_fused_rrf [of e it q stk fu] by blast
    from rrf_60_bounds [OF s(1), of sem'] s(2) show ?thesis by auto
  qed
  show ?thesis
  proof (intro conjI impI)
    assume "distinct (map fst kws)"
    from rrf_60_bounds [OF this, of sem]
    show "\<exists>out. fuse_rrf 60 sem kws = Inr out
         \<and> (\<forall>(i, s) \<in> set out. 0 < s \<and> s \<le> 1 / (60 + 1) + 1 / (60 + 1))"
      by blast
  next
    assume "fusion_strategy e = ''rrf'' \<and> snd (search_fused it e q stk) = Inr fused"
    then show "\<forall>(i, s) \<in> set fused. 0 < s \<and> s \<le> 1 / (60 + 1) + 1 / (60 + 1)"
      using fused_bounds by blast
  next
    assume a: "fusion_strategy e = ''rrf'' \<and> snd (search it e q top_k f stk) = Inr rs"
    show "\<forall>r \<in> set rs. 0 < sr_score r \<and> sr_score r \<le> 1 / (60 + 1) + 1 / (60 + 1)"
    proof
      fix r assume "r \<in> set rs"
      with a search_scores_from_fused [of it e q top_k f stk rs r]
      obtain fu c where fu: "snd (search_fused it e q stk) = Inr fu" "c \<in> set fu"
        "sr_score r = snd c" by blast
      from fused_bounds [OF _ fu(1)] a fu(2)
      have "0 < snd c \<and> snd c \<le> 1 / (60 + 1) + 1 / (60 + 1)" by (cases c) auto
      with fu(3) show "0 < sr_score r \<and> sr_score r \<le> 1 / (60 + 1) + 1 / (60 + 1)" by simp
    qed
  qed
qed

lemma example_rrf_search_returns:
  "\<exists>rs. snd (search sort (example_catalogue ''rrf'') ''neural'' 2
               (Some [(''kind'', PStr ''paper'')]) 3) = Inr rs"
  by (simp add: search_def search_fused_def semantic_search_def keyword_search_def
        search_fuse_def example_catalogue_def example_catalogue_items_def init_def
        example_encoder_def example_ranked_search_def example_idf_def bm25_get_scores_def
        tokenize_def lower_char_def is_word_char_def argsort_def py_take_def
        fuse_rrf_def sorted_desc_def py_index_def item_passes_def filters_match_def
        item_get_def)

lemma example_rrf_fused_returns:
  "\<exists>fused. snd (search_fused sort (example_catalogue ''rrf'') ''neural'' 3) = Inr fused"
  by (simp add: search_fused_def semantic_search_def keyword_search_def
        search_fuse_def example_catalogue_def init_def
        example_encoder_def example_ranked_search_def example_idf_def bm25_get_scores_def
        tokenize_def lower_char_def is_word_char_def argsort_def py_take_def
        fuse_rrf_def sorted_desc_def)

text \<open>
  On the three-document engine with the RRF strategy, documents 0 and 2 are first and
  second in one list and second and first in the other: both get \<open>1/61 + 1/62\<close>.
\<close>

theorem rrf_score_bounds_witness:
  "distinct (map fst [(2 :: int, 1 :: real), (0, 1), (1, 0)])
   \<and> (\<exists>out. fuse_rrf 60 [(0, 9 / 10), (2, 4 / 5), (1, 1 / 10)] [(2, 1), (0, 1), (1, 0)] = Inr out
         \<and> (\<forall>(i, s) \<in> set out. 0 < s \<and> s \<le> 1 / (60 + 1) + 1 / (60 + 1)))
   \<and> fusion_strategy (example_catalogue ''rrf'') = ''rrf''
   \<and> (\<exists>fused. snd (search_fused sort (example_catalogue ''rrf'') ''neural'' 3) = Inr fused
         \<and> (\<forall>(i, s) \<in> set fused. 0 < s \<and> s \<le> 1 / (60 + 1) + 1 / (60 + 1)))
   \<and> (\<exists>rs. snd (search sort (example_catalogue ''rrf'') ''neural'' 2
                   (Some [(''kind'', PStr ''paper'')]) 3) = Inr rs
         \<and> (\<forall>r \<in> set rs. 0 < sr_score r \<and> sr_score r \<le> 1 / (60 + 1) + 1 / (60 + 1)))"
proof -
  have h1: "distinct (map fst [(2 :: int, 1 :: real), (0, 1), (1, 0)])" by simp
  have h2: "fusion_strategy (example_catalogue ''rrf'') = ''rrf''"
    by (simp add: example_catalogue_def init_def)
  obtain fused where h3: "snd (search_fused sort (example_catalogue ''rrf'') ''neural'' 3) = Inr fused"
    using example_rrf_fused_returns by blast
  obtain rs where h4: "snd (search sort (example_catalogue ''rrf'') ''neural'' 2
                   (Some [(''kind'', PStr ''paper'')]) 3) = Inr rs"
    using example_rrf_search_returns by blast
  note t = rrf_score_bounds
             [where kws = "[(2, 1), (0, 1), (1, 0)]"
                and sem = "[(0, 9 / 10), (2, 4 / 5), (1, 1 / 10)]"
                and e = "example_catalogue ''rrf''" and it = sort and q = "''neural''"
                and stk = 3 and fused = fused and top_k = 2
                and f = "Some [(''kind'', PStr ''paper'')]" and rs = rs]
  from t h1 have c1: "\<exists>out. fuse_rrf 60 [(0, 9 / 10), (2, 4 / 5), (1, 1 / 10)] [(2, 1), (0, 1), (1, 0)] = Inr out
         \<and> (\<forall>(i, s) \<in> set out. 0 < s \<and> s \<le> 1 / (60 + 1) + 1 / (60 + 1))" by blast
  from t h2 h3 have c2: "\<forall>(i, s) \<in> set fused. 0 < s \<and> s \<le> 1 / (60 + 1) + 1 / (60 + 1)"
    by blast
  from t h2 h4 have c3: "\<forall>r \<in> set rs. 0 < sr_score r \<and> sr_score r \<le> 1 / (60 + 1) + 1 / (60 + 1)"
    by blast
  from h1 c1 h2 h3 c2 h4 c3 show ?thesis by blast
qed

end
